theory Spec2Isabelle
  imports Main "HOL-Library.Sublist" "HOL-Library.Char_ord" "HOL-Library.List_Lexorder"
begin

section \<open>Python strings\<close>

text \<open>
  A Python \<^verbatim>\<open>str\<close> is a \<^typ>\<open>string\<close>. Strings are ordered as Python orders them:
  lexicographically, character by character (the instances of \<open>Char_ord\<close> and
  \<open>List_Lexorder\<close>). Hub identifiers are ASCII, so \<^verbatim>\<open>lower\<close> and \<^verbatim>\<open>isalnum\<close>
  are the ASCII ones: a character outside ASCII is neither a letter nor a digit here.
\<close>

text \<open>\<^verbatim>\<open>sub in s\<close>: a scan for the first position where \<open>sub\<close> starts.\<close>

fun py_in :: "string \<Rightarrow> string \<Rightarrow> bool" where
  "py_in sub [] = (sub = [])"
| "py_in sub (c # cs) = (prefix sub (c # cs) \<or> py_in sub cs)"

text \<open>\<^verbatim>\<open>s.endswith(suf)\<close>\<close>

definition endswith :: "string \<Rightarrow> string \<Rightarrow> bool" where
  "endswith s suf = (length suf \<le> length s \<and> drop (length s - length suf) s = suf)"

text \<open>\<^verbatim>\<open>any(x in s for x in markers)\<close>\<close>

definition any_in :: "string list \<Rightarrow> string \<Rightarrow> bool" where
  "any_in markers s = list_ex (\<lambda>x. py_in x s) markers"

text \<open>
  \<^verbatim>\<open>s.lower()\<close> on ASCII: the upper-case letters are mapped to the lower-case ones,
  every other character is kept.
\<close>

definition lower_char :: "char \<Rightarrow> char" where
  "lower_char c =
     (case map_of (zip ''ABCDEFGHIJKLMNOPQRSTUVWXYZ'' ''abcdefghijklmnopqrstuvwxyz'') c of
        None \<Rightarrow> c
      | Some l \<Rightarrow> l)"

definition lower :: "string \<Rightarrow> string" where
  "lower s = map lower_char s"

text \<open>\<^verbatim>\<open>c.isalnum()\<close> on ASCII: a letter or a digit.\<close>

definition isalnum :: "char \<Rightarrow> bool" where
  "isalnum c =
     (c \<in> set ''abcdefghijklmnopqrstuvwxyzABCDEFGHIJKLMNOPQRSTUVWXYZ0123456789'')"

text \<open>
  \<^verbatim>\<open>s.split(sep)\<close> for a non-empty separator: the scan goes from left to right, cuts
  at each occurrence of \<open>sep\<close> and resumes after it; \<open>cur\<close> is the piece being read.
  The script only splits at the literals \<^verbatim>\<open>'/'\<close>, \<^verbatim>\<open>'llama'\<close> and \<^verbatim>\<open>'mistral'\<close>.
\<close>

function split_scan :: "string \<Rightarrow> string \<Rightarrow> string \<Rightarrow> string list" where
  "split_scan sep cur [] = [cur]"
| "split_scan sep cur (c # cs) =
     (if sep \<noteq> [] \<and> prefix sep (c # cs)
      then cur # split_scan sep [] (drop (length sep) (c # cs))
      else split_scan sep (cur @ [c]) cs)"
  by pat_completeness auto
termination
  by (relation "measure (\<lambda>(sep, cur, s). length s)") (auto simp: neq_Nil_conv)

definition py_split :: "string \<Rightarrow> string \<Rightarrow> string list" where
  "py_split sep s = split_scan sep [] s"

text \<open>
  \<^verbatim>\<open>s.replace(old, new)\<close>: every occurrence of \<open>old\<close> met by a scan from left to
  right is replaced, and the scan resumes after the occurrence. With an empty \<open>old\<close>
  Python puts \<open>new\<close> before every character and at the end.
\<close>

function replace_scan :: "string \<Rightarrow> string \<Rightarrow> string \<Rightarrow> string" where
  "replace_scan old new [] = []"
| "replace_scan old new (c # cs) =
     (if old \<noteq> [] \<and> prefix old (c # cs)
      then new @ replace_scan old new (drop (length old) (c # cs))
      else c # replace_scan old new cs)"
  by pat_completeness auto
termination
  by (relation "measure (\<lambda>(old, new, s). length s)") (auto simp: neq_Nil_conv)

definition py_replace :: "string \<Rightarrow> string \<Rightarrow> string \<Rightarrow> string" where
  "py_replace old new s =
     (if old = [] then new @ concat (map (\<lambda>c. c # new) s) else replace_scan old new s)"

text \<open>\<^verbatim>\<open>s.strip(chars)\<close>: the characters of \<open>chars\<close> are removed at both ends.\<close>

definition py_strip :: "string \<Rightarrow> string \<Rightarrow> string" where
  "py_strip chars s =
     rev (dropWhile (\<lambda>c. c \<in> set chars) (rev (dropWhile (\<lambda>c. c \<in> set chars) s)))"

text \<open>\<^verbatim>\<open>str(n)\<close> of an integer, as an f-string renders it.\<close>

fun str_nat :: "nat \<Rightarrow> string" where
  "str_nat n =
     (if n < 10 then [''0123456789'' ! n]
      else str_nat (n div 10) @ [''0123456789'' ! (n mod 10)])"

definition py_str :: "int \<Rightarrow> string" where
  "py_str i = (if i < 0 then CHR ''-'' # str_nat (nat (- i)) else str_nat (nat i))"

text \<open>\<^verbatim>\<open>os.path.join(a, b)\<close> and \<^verbatim>\<open>os.path.basename(p)\<close> of \<^verbatim>\<open>posixpath\<close>.\<close>

definition path_join :: "string \<Rightarrow> string \<Rightarrow> string" where
  "path_join a b =
     (if prefix ''/'' b then b
      else if a = [] \<or> endswith a ''/'' then a @ b
      else a @ ''/'' @ b)"

definition basename :: "string \<Rightarrow> string" where
  "basename p = rev (takeWhile (\<lambda>c. c \<noteq> CHR ''/'') (rev p))"

section \<open>Errors\<close>

text \<open>
  The exceptions the script can meet: an \<^verbatim>\<open>Exception\<close> raised by the hub client, an
  \<^verbatim>\<open>OSError\<close> of the file system or of starting the download tool, and the
  \<^verbatim>\<open>CalledProcessError\<close> of a download tool that exits with a non-zero status.
\<close>

datatype py_error = HubError | OSError | CalledProcessError

section \<open>Artifact Resolver: \<^verbatim>\<open>find_best_gguf_file\<close>\<close>

text \<open>
  The loop over the fallback patterns (lines 99 to 102): the first pattern with a match
  returns; \<open>None\<close> is the loop running to its end.
\<close>

fun try_patterns :: "string list \<Rightarrow> string list \<Rightarrow> string option" where
  "try_patterns [] gguf_files = None"
| "try_patterns (pattern # rest) gguf_files =
     (let matches = filter (\<lambda>f. py_in pattern f) gguf_files
      in if matches \<noteq> [] then Some (hd (sort matches))
         else try_patterns rest gguf_files)"

text \<open>
  \<open>list_repo_files\<close> is the hub's file listing, which returns the files of a repository
  or raises. Every exception of the \<^verbatim>\<open>try\<close> block ends in \<^verbatim>\<open>return None\<close>.
\<close>

definition find_best_gguf_file ::
  "(string \<Rightarrow> py_error + string list) \<Rightarrow> string \<Rightarrow> string option" where
  "find_best_gguf_file list_repo_files model_id =
     (case list_repo_files model_id of
        Inl e \<Rightarrow> None
      | Inr files \<Rightarrow>
          (let q4_files = filter (\<lambda>f. endswith f ''.gguf'' \<and> py_in ''Q4_K_M'' f) files
           in if q4_files \<noteq> [] then Some (hd (sort q4_files))
              else
                (let gguf_files = filter (\<lambda>f. endswith f ''.gguf'') files
                 in if gguf_files \<noteq> []
                    then (case try_patterns
                                 [''Q4_0'', ''Q4_K'', ''Q3_K'', ''Q5_K'', ''Q2_K'', ''Q8_0'']
                                 gguf_files of
                            Some f \<Rightarrow> Some f
                          | None \<Rightarrow> Some (hd (sort gguf_files)))
                    else None)))"

section \<open>Candidate Filter: \<^verbatim>\<open>get_trending_gguf_models\<close>\<close>

text \<open>A model descriptor of the hub: \<^verbatim>\<open>model.id\<close> and \<^verbatim>\<open>model.downloads\<close>.\<close>

record model_info =
  model_id :: string
  downloads :: int

text \<open>
  The loop of lines 60 to 78 over the hub's answer. \<open>categories\<close> is \<^verbatim>\<open>None\<close> or a
  list; \<^verbatim>\<open>if categories:\<close> is false for \<^verbatim>\<open>None\<close> and for the empty list. Each
  \<^verbatim>\<open>continue\<close> goes on with the rest of the models, \<^verbatim>\<open>break\<close> returns what has
  been collected.
\<close>

fun filter_loop ::
  "int \<Rightarrow> bool \<Rightarrow> string list option \<Rightarrow> model_info list \<Rightarrow> model_info list \<Rightarrow> model_info list"
where
  "filter_loop max_models small_only categories filtered_models [] = filtered_models"
| "filter_loop max_models small_only categories filtered_models (model # rest) =
     (if (case categories of
            None \<Rightarrow> False
          | Some cats \<Rightarrow>
              cats \<noteq> [] \<and> \<not> list_ex (\<lambda>cat. py_in (lower cat) (lower (model_id model))) cats)
      then filter_loop max_models small_only categories filtered_models rest
      else if small_only \<and>
              any_in [''70b'', ''30b'', ''40b'', ''65b'', ''13b''] (lower (model_id model))
      then filter_loop max_models small_only categories filtered_models rest
      else if small_only \<and>
              \<not> any_in [''1b'', ''2b'', ''3b'', ''5b'', ''7b'', ''8b''] (lower (model_id model))
      then filter_loop max_models small_only categories filtered_models rest
      else (let filtered_models' = filtered_models @ [model]
            in if int (length filtered_models') \<ge> max_models then filtered_models'
               else filter_loop max_models small_only categories filtered_models' rest))"

text \<open>
  \<open>list_models\<close> is the hub's answer to the query of lines 52 to 57: the models in
  download order, or an exception, which the function does not catch.
\<close>

definition get_trending_gguf_models ::
  "py_error + model_info list \<Rightarrow> int \<Rightarrow> bool \<Rightarrow> string list option \<Rightarrow>
   py_error + model_info list" where
  "get_trending_gguf_models list_models max_models small_only categories =
     (case list_models of
        Inl e \<Rightarrow> Inl e
      | Inr models \<Rightarrow> Inr (filter_loop max_models small_only categories [] models))"

section \<open>Name Normalizer (lines 258 to 267 of \<^verbatim>\<open>main\<close>)\<close>

text \<open>The simplified model name that \<^verbatim>\<open>main\<close> derives from \<^verbatim>\<open>model.id\<close>.\<close>

definition simplified_model_name :: "string \<Rightarrow> string" where
  "simplified_model_name mid =
     (let model_name = lower (last (py_split ''/'' mid));
          model_name =
            (if py_in ''llama'' model_name
             then ''llama-'' @ last (py_split ''llama'' model_name)
             else if py_in ''mistral'' model_name
             then ''mistral-'' @ last (py_split ''mistral'' model_name)
             else model_name);
          model_name = py_replace ''-gguf'' [] model_name;
          model_name =
            map (\<lambda>c. if isalnum c \<or> c \<in> set [CHR ''-'', CHR ''_''] then c else CHR ''-'')
              model_name
      in py_strip ''-_'' model_name)"

section \<open>File system and download tool\<close>

text \<open>
  The files of the file system with their text, and the paths at which opening a file for
  writing raises \<^verbatim>\<open>OSError\<close>. A path exists when it holds a file.
\<close>

record filesystem =
  files :: "string \<rightharpoonup> string"
  write_refused :: "string \<Rightarrow> bool"

definition exists_path :: "filesystem \<Rightarrow> string \<Rightarrow> bool" where
  "exists_path fs path = (files fs path \<noteq> None)"

text \<open>\<^verbatim>\<open>with open(path, "w") as f: f.write(content)\<close>\<close>

definition write_file :: "string \<Rightarrow> string \<Rightarrow> filesystem \<Rightarrow> (py_error + unit) \<times> filesystem" where
  "write_file path content fs =
     (if write_refused fs path then (Inl OSError, fs)
      else (Inr (), fs\<lparr>files := (files fs)(path \<mapsto> content)\<rparr>))"

text \<open>
  What \<^verbatim>\<open>subprocess.run(cmd, check=True)\<close> can do: the tool exits with status 0, it
  exits with another status (\<^verbatim>\<open>CalledProcessError\<close>), or it cannot be started
  (\<^verbatim>\<open>OSError\<close>). The tool itself is a parameter \<open>run\<close> of the model: from the command
  line and the file system it gives the outcome and the file system it leaves.
\<close>

datatype proc_outcome = Exit_Zero | Exit_Nonzero | Not_Started

type_synonym subprocess = "string list \<Rightarrow> filesystem \<Rightarrow> proc_outcome \<times> filesystem"

section \<open>Config Emitter: \<^verbatim>\<open>create_model_config\<close>\<close>

text \<open>The f-string of lines 119 to 139; in it \<^verbatim>\<open>{{{{\<close> stands for two braces.\<close>

definition config_content :: "string \<Rightarrow> string \<Rightarrow> int \<Rightarrow> string" where
  \<open>config_content model_name model_file recommended_threads =
     ''name: '' @ model_name @ ''\<newline>'' @
     ''backend: llama-cpp\<newline>'' @
     ''parameters:\<newline>'' @
     ''  model: /models/'' @ model_file @ ''\<newline>'' @
     ''  context_size: 2048\<newline>'' @
     ''  threads: '' @ py_str recommended_threads @ ''\<newline>'' @
     ''  f16: true\<newline>'' @
     ''template:\<newline>'' @
     ''  chat:\<newline>'' @
     ''    template: |\<newline>'' @
     ''      <s>{{- if .System }}\<newline>'' @
     ''      {{.System}}\<newline>'' @
     ''      {{- end }}\<newline>'' @
     ''      {{- range $i, $message := .Messages }}\<newline>'' @
     ''      {{- if eq $message.Role "user" }}\<newline>'' @
     ''      [INST] {{ $message.Content }} [/INST]\<newline>'' @
     ''      {{- else if eq $message.Role "assistant" }}\<newline>'' @
     ''      {{ $message.Content }}\<newline>'' @
     ''      {{- end }}\<newline>'' @
     ''      {{- end }}\<newline>''\<close>

text \<open>
  \<open>cpu_cores\<close> is the value of \<^verbatim>\<open>multiprocessing.cpu_count()\<close>. The result is the
  path of the configuration file, or the \<^verbatim>\<open>OSError\<close> of the write, which is not
  caught.
\<close>

definition create_model_config ::
  "int \<Rightarrow> string \<Rightarrow> string \<Rightarrow> string \<Rightarrow> filesystem \<Rightarrow> (py_error + string) \<times> filesystem" where
  "create_model_config cpu_cores model_name model_file config_dir fs =
     (let recommended_threads = max 2 (min (cpu_cores div 2) 8);
          config_path = path_join config_dir (model_name @ ''.yaml'');
          content = config_content model_name model_file recommended_threads
      in case write_file config_path content fs of
           (Inl e, fs') \<Rightarrow> (Inl e, fs')
         | (Inr _, fs') \<Rightarrow> (Inr config_path, fs'))"

section \<open>Fetcher: \<^verbatim>\<open>download_model\<close>\<close>

text \<open>
  The result is \<^verbatim>\<open>destination\<close>, or \<^verbatim>\<open>None\<close> after a \<^verbatim>\<open>CalledProcessError\<close>;
  any other exception of \<^verbatim>\<open>subprocess.run\<close> is not caught.
\<close>

definition download_model ::
  "subprocess \<Rightarrow> string \<Rightarrow> string \<Rightarrow> string \<Rightarrow> filesystem \<Rightarrow>
   (py_error + string option) \<times> filesystem" where
  "download_model run mid file_name model_dir fs =
     (let destination = path_join model_dir (basename file_name)
      in if exists_path fs destination then (Inr (Some destination), fs)
         else
           (let cmd = [''huggingface-cli'', ''download'', mid, file_name,
                       ''--local-dir'', model_dir, ''--local-dir-use-symlinks'', ''False'']
            in case run cmd fs of
                 (Exit_Zero, fs') \<Rightarrow> (Inr (Some destination), fs')
               | (Exit_Nonzero, fs') \<Rightarrow> (Inr None, fs')
               | (Not_Started, fs') \<Rightarrow> (Inl OSError, fs')))"

section \<open>The download loop of \<^verbatim>\<open>main\<close> (lines 248 to 278)\<close>

text \<open>
  What the loop reads from its surroundings: the hub's file listing, the download tool,
  the number of cores, and the two directories of the command line.
\<close>

record run_env =
  list_repo_files :: "string \<Rightarrow> py_error + string list"
  run_subprocess :: subprocess
  cpu_count :: int
  output_dir :: string
  config_dir :: string

text \<open>
  The state of the loop is the file system and \<^verbatim>\<open>downloaded_model_names\<close>. The loop
  ends with \<open>Inr\<close> and the names, or with \<open>Inl\<close> at the first exception that nothing
  catches. \<^verbatim>\<open>not file_name\<close> and \<^verbatim>\<open>not downloaded_path\<close> hold for \<^verbatim>\<open>None\<close> and
  for the empty string.
\<close>

fun download_loop ::
  "run_env \<Rightarrow> model_info list \<Rightarrow> string list \<Rightarrow> filesystem \<Rightarrow>
   (py_error + string list) \<times> filesystem" where
  "download_loop env [] downloaded_model_names fs = (Inr downloaded_model_names, fs)"
| "download_loop env (model # rest) downloaded_model_names fs =
     (case find_best_gguf_file (list_repo_files env) (model_id model) of
        None \<Rightarrow> download_loop env rest downloaded_model_names fs
      | Some file_name \<Rightarrow>
          if file_name = [] then download_loop env rest downloaded_model_names fs
          else
            (let model_name = simplified_model_name (model_id model)
             in case download_model (run_subprocess env) (model_id model) file_name
                       (output_dir env) fs of
                  (Inl e, fs') \<Rightarrow> (Inl e, fs')
                | (Inr None, fs') \<Rightarrow> download_loop env rest downloaded_model_names fs'
                | (Inr (Some downloaded_path), fs') \<Rightarrow>
                    if downloaded_path = []
                    then download_loop env rest downloaded_model_names fs'
                    else
                      (let model_file = basename file_name
                       in case create_model_config (cpu_count env) model_name model_file
                                 (config_dir env) fs' of
                            (Inl e, fs'') \<Rightarrow> (Inl e, fs'')
                          | (Inr config_path, fs'') \<Rightarrow>
                              download_loop env rest (downloaded_model_names @ [model_name])
                                fs'')))"

section \<open>Alias Emitter: \<^verbatim>\<open>create_openai_aliases\<close>\<close>

text \<open>The two list comprehensions of lines 182 and 200.\<close>

definition small_models :: "string list \<Rightarrow> string list" where
  "small_models downloaded_models =
     filter (\<lambda>m. any_in [''phi'', ''gemma-2'', ''mistral'', ''llama-3-1b''] (lower m))
       downloaded_models"

definition large_models :: "string list \<Rightarrow> string list" where
  "large_models downloaded_models =
     filter (\<lambda>m. any_in [''llama-3-8'', ''mistral-7'', ''llama-3.1-8''] (lower m))
       downloaded_models"

text \<open>Lines 183 to 197: the alias \<^verbatim>\<open>gpt-3.5-turbo\<close>.\<close>

definition gpt35_alias :: "string \<Rightarrow> string list \<Rightarrow> filesystem \<Rightarrow> (py_error + unit) \<times> filesystem"
where
  "gpt35_alias cfg_dir downloaded_models fs =
     (case small_models downloaded_models of
        [] \<Rightarrow> (Inr (), fs)
      | small_model # _ \<Rightarrow>
          (let alias_path = path_join cfg_dir ''gpt-3.5-turbo.yaml'';
               source_path = path_join cfg_dir (small_model @ ''.yaml'')
           in case files fs source_path of
                None \<Rightarrow> (Inr (), fs)
              | Some config \<Rightarrow>
                  (let config = py_replace (''name: '' @ small_model) ''name: gpt-3.5-turbo'' config
                   in write_file alias_path config fs)))"

text \<open>Lines 201 to 218: the alias \<^verbatim>\<open>gpt-4\<close>, with the larger context size.\<close>

definition gpt4_alias :: "string \<Rightarrow> string list \<Rightarrow> filesystem \<Rightarrow> (py_error + unit) \<times> filesystem"
where
  "gpt4_alias cfg_dir downloaded_models fs =
     (case large_models downloaded_models of
        [] \<Rightarrow> (Inr (), fs)
      | large_model # _ \<Rightarrow>
          (let alias_path = path_join cfg_dir ''gpt-4.yaml'';
               source_path = path_join cfg_dir (large_model @ ''.yaml'')
           in case files fs source_path of
                None \<Rightarrow> (Inr (), fs)
              | Some config \<Rightarrow>
                  (let config = py_replace (''name: '' @ large_model) ''name: gpt-4'' config;
                       config = py_replace ''context_size: 2048'' ''context_size: 4096'' config
                   in write_file alias_path config fs)))"

definition create_openai_aliases ::
  "string \<Rightarrow> string list \<Rightarrow> filesystem \<Rightarrow> (py_error + unit) \<times> filesystem" where
  "create_openai_aliases cfg_dir downloaded_models fs =
     (if downloaded_models = [] then (Inr (), fs)
      else case gpt35_alias cfg_dir downloaded_models fs of
             (Inl e, fs') \<Rightarrow> (Inl e, fs')
           | (Inr _, fs') \<Rightarrow> gpt4_alias cfg_dir downloaded_models fs')"

section \<open>Properties of the string operations\<close>

lemma py_in_sublist: "py_in sub s = sublist sub s"
  by (induction s) (auto simp: sublist_Cons_right)

lemma endswith_suffix: "endswith s suf = suffix suf s"
  by (auto simp: endswith_def suffix_def)
     (metis append_eq_conv_conj append_take_drop_id diff_add_inverse2 length_append length_drop)

lemma hd_sort_Min: "xs \<noteq> [] \<Longrightarrow> hd (sort xs) = Min (set xs)"
proof -
  assume ne: "xs \<noteq> []"
  then have sne: "sort xs \<noteq> []"
    by (metis length_0_conv length_sort)
  then obtain y ys where s: "sort xs = y # ys"
    by (cases "sort xs") auto
  have srt: "sorted (y # ys)" and st: "set (y # ys) = set xs"
    by (metis s sorted_sort) (metis s set_sort)
  have "Min (set xs) = y"
  proof (rule Min_eqI)
    show "finite (set xs)" by simp
    show "\<And>z. z \<in> set xs \<Longrightarrow> y \<le> z" using srt st by auto
    show "y \<in> set xs" using st by auto
  qed
  then show ?thesis by (simp add: s)
qed

section \<open>Artifact Resolver: priority order\<close>

lemma try_patterns_None:
  "(try_patterns ps gg = None) = (\<forall>p\<in>set ps. filter (\<lambda>f. py_in p f) gg = [])"
  by (induction ps) (auto simp: Let_def)

lemma try_patterns_first:
  "\<forall>q\<in>set as. filter (\<lambda>f. py_in q f) gg = [] \<Longrightarrow> filter (\<lambda>f. py_in p f) gg \<noteq> [] \<Longrightarrow>
   try_patterns (as @ p # bs) gg = Some (hd (sort (filter (\<lambda>f. py_in p f) gg)))"
  by (induction as) (auto simp: Let_def)

lemma filter_empty_set: "(filter P xs = []) = (\<not> (\<exists>x\<in>set xs. P x))"
  by (simp add: filter_empty_conv)

text \<open>
  Claim C1. With the order of Python strings: when a \<^verbatim>\<open>.gguf\<close> file contains
  \<^verbatim>\<open>Q4_K_M\<close>, the resolver returns the least such file; otherwise, for the first
  marker of \<^verbatim>\<open>Q4_0, Q4_K, Q3_K, Q5_K, Q2_K, Q8_0\<close> that some \<^verbatim>\<open>.gguf\<close> file
  contains, the least file containing it; otherwise the least \<^verbatim>\<open>.gguf\<close> file; and
  \<open>None\<close> when the listing has no \<^verbatim>\<open>.gguf\<close> file.
\<close>

theorem find_best_gguf_file_priority:
  assumes listing: "hub_files repo = Inr repo_files"
  shows
  "((\<exists>f\<in>set repo_files. suffix ''.gguf'' f \<and> sublist ''Q4_K_M'' f) \<longrightarrow>
      find_best_gguf_file hub_files repo =
        Some (Min {f \<in> set repo_files. suffix ''.gguf'' f \<and> sublist ''Q4_K_M'' f})) \<and>
   (\<not> (\<exists>f\<in>set repo_files. suffix ''.gguf'' f \<and> sublist ''Q4_K_M'' f) \<longrightarrow>
      (\<forall>before p after.
         before @ p # after = [''Q4_0'', ''Q4_K'', ''Q3_K'', ''Q5_K'', ''Q2_K'', ''Q8_0''] \<and>
         (\<forall>q\<in>set before. \<not> (\<exists>f\<in>set repo_files. suffix ''.gguf'' f \<and> sublist q f)) \<and>
         (\<exists>f\<in>set repo_files. suffix ''.gguf'' f \<and> sublist p f) \<longrightarrow>
         find_best_gguf_file hub_files repo =
           Some (Min {f \<in> set repo_files. suffix ''.gguf'' f \<and> sublist p f}))) \<and>
   (\<not> (\<exists>f\<in>set repo_files. suffix ''.gguf'' f \<and> sublist ''Q4_K_M'' f) \<and>
    (\<forall>q\<in>set [''Q4_0'', ''Q4_K'', ''Q3_K'', ''Q5_K'', ''Q2_K'', ''Q8_0''].
        \<not> (\<exists>f\<in>set repo_files. suffix ''.gguf'' f \<and> sublist q f)) \<and>
    (\<exists>f\<in>set repo_files. suffix ''.gguf'' f) \<longrightarrow>
      find_best_gguf_file hub_files repo =
        Some (Min {f \<in> set repo_files. suffix ''.gguf'' f})) \<and>
   (\<not> (\<exists>f\<in>set repo_files. suffix ''.gguf'' f) \<longrightarrow>
      find_best_gguf_file hub_files repo = None)"
proof -
  let ?gg = "filter (\<lambda>f. endswith f ''.gguf'') repo_files"
  let ?q4 = "filter (\<lambda>f. endswith f ''.gguf'' \<and> py_in ''Q4_K_M'' f) repo_files"
  let ?order = "[''Q4_0'', ''Q4_K'', ''Q3_K'', ''Q5_K'', ''Q2_K'', ''Q8_0'']"
  have unfold: "find_best_gguf_file hub_files repo =
      (if ?q4 \<noteq> [] then Some (hd (sort ?q4))
       else if ?gg \<noteq> []
            then (case try_patterns ?order ?gg of Some f \<Rightarrow> Some f
                  | None \<Rightarrow> Some (hd (sort ?gg)))
            else None)"
    by (simp add: find_best_gguf_file_def listing Let_def)
  have q4_ne: "(?q4 \<noteq> []) = (\<exists>f\<in>set repo_files. suffix ''.gguf'' f \<and> sublist ''Q4_K_M'' f)"
    by (simp only: filter_empty_set endswith_suffix py_in_sublist) simp
  have gg_ne: "(?gg \<noteq> []) = (\<exists>f\<in>set repo_files. suffix ''.gguf'' f)"
    by (simp only: filter_empty_set endswith_suffix) simp
  have matches_set: "set (filter (\<lambda>f. py_in p f) ?gg) = {f \<in> set repo_files. suffix ''.gguf'' f \<and> sublist p f}" for p
    by (auto simp: endswith_suffix py_in_sublist)
  have matches_ne: "(filter (\<lambda>f. py_in p f) ?gg \<noteq> []) = (\<exists>f\<in>set repo_files. suffix ''.gguf'' f \<and> sublist p f)" for p
    by (simp only: filter_empty_set) (auto simp: endswith_suffix py_in_sublist)
  have c1: "?q4 \<noteq> [] \<Longrightarrow> find_best_gguf_file hub_files repo =
        Some (Min {f \<in> set repo_files. suffix ''.gguf'' f \<and> sublist ''Q4_K_M'' f})"
  proof -
    assume ne: "?q4 \<noteq> []"
    have "set ?q4 = {f \<in> set repo_files. suffix ''.gguf'' f \<and> sublist ''Q4_K_M'' f}"
      by (auto simp: endswith_suffix py_in_sublist)
    with ne hd_sort_Min [OF ne] show ?thesis by (simp add: unfold)
  qed
  have c2: "find_best_gguf_file hub_files repo =
           Some (Min {f \<in> set repo_files. suffix ''.gguf'' f \<and> sublist p f})"
    if no_q4: "?q4 = []" and split: "before @ p # after = ?order"
      and none_before: "\<forall>q\<in>set before. \<not> (\<exists>f\<in>set repo_files. suffix ''.gguf'' f \<and> sublist q f)"
      and some_p: "\<exists>f\<in>set repo_files. suffix ''.gguf'' f \<and> sublist p f"
    for before p after
  proof -
    have m_ne: "filter (\<lambda>f. py_in p f) ?gg \<noteq> []"
      using some_p by (simp only: matches_ne)
    have b_none: "\<forall>q\<in>set before. filter (\<lambda>f. py_in q f) ?gg = []"
      using none_before matches_ne by blast
    have gne: "?gg \<noteq> []" using some_p gg_ne by blast
    have "try_patterns ?order ?gg = Some (hd (sort (filter (\<lambda>f. py_in p f) ?gg)))"
      using try_patterns_first [OF b_none m_ne, of after] split by simp
    then have "find_best_gguf_file hub_files repo = Some (hd (sort (filter (\<lambda>f. py_in p f) ?gg)))"
      using no_q4 gne by (simp only: unfold) simp
    then show ?thesis
      by (simp only: hd_sort_Min [OF m_ne] matches_set)
  qed
  have c3: "find_best_gguf_file hub_files repo = Some (Min {f \<in> set repo_files. suffix ''.gguf'' f})"
    if no_q4: "?q4 = []"
      and none: "\<forall>q\<in>set ?order. \<not> (\<exists>f\<in>set repo_files. suffix ''.gguf'' f \<and> sublist q f)"
      and some: "\<exists>f\<in>set repo_files. suffix ''.gguf'' f"
  proof -
    have gne: "?gg \<noteq> []" using some gg_ne by blast
    have "\<forall>q\<in>set ?order. filter (\<lambda>f. py_in q f) ?gg = []"
      using none matches_ne by blast
    then have "try_patterns ?order ?gg = None"
      by (simp only: try_patterns_None)
    then have "find_best_gguf_file hub_files repo = Some (hd (sort ?gg))"
      using no_q4 gne by (simp only: unfold) simp
    moreover have "set ?gg = {f \<in> set repo_files. suffix ''.gguf'' f}"
      by (auto simp: endswith_suffix)
    ultimately show ?thesis by (simp only: hd_sort_Min [OF gne])
  qed
  have c4: "find_best_gguf_file hub_files repo = None"
    if none: "\<not> (\<exists>f\<in>set repo_files. suffix ''.gguf'' f)"
  proof -
    have "?gg = []" using none gg_ne by blast
    moreover have "?q4 = []" using none q4_ne by blast
    ultimately show ?thesis by (simp only: unfold) simp
  qed
  show ?thesis
    using c1 c2 c3 c4 q4_ne by blast
qed

text \<open>
  The four cases of C1 on the listings of the specification's examples.
\<close>

theorem find_best_gguf_file_priority_witness:
  "find_best_gguf_file
     (\<lambda>_. Inr [''model-Q4_K_M.gguf'', ''model-Q4_0.gguf'', ''model-Q8_0.gguf'']) ''org/m'' =
     Some ''model-Q4_K_M.gguf'' \<and>
   find_best_gguf_file
     (\<lambda>_. Inr [''model-Q5_K-v1.gguf'', ''model-Q5_K-v2.gguf'', ''model-Q3_K.gguf'']) ''org/m'' =
     Some ''model-Q3_K.gguf'' \<and>
   find_best_gguf_file (\<lambda>_. Inr [''b.gguf'', ''readme.md'', ''a.gguf'']) ''org/m'' =
     Some ''a.gguf'' \<and>
   find_best_gguf_file (\<lambda>_. Inr [''readme.md'']) ''org/m'' = None"
proof -
  let ?F1 = "[''model-Q4_K_M.gguf'', ''model-Q4_0.gguf'', ''model-Q8_0.gguf'']"
  let ?F2 = "[''model-Q5_K-v1.gguf'', ''model-Q5_K-v2.gguf'', ''model-Q3_K.gguf'']"
  let ?F3 = "[''b.gguf'', ''readme.md'', ''a.gguf'']"
  let ?F4 = "[''readme.md'']"
  note ev = suffix_to_prefix py_in_sublist [symmetric]
  have s1: "{f \<in> set ?F1. suffix ''.gguf'' f \<and> sublist ''Q4_K_M'' f} = {''model-Q4_K_M.gguf''}"
    by (auto simp: ev)
  have r1: "find_best_gguf_file (\<lambda>_. Inr ?F1) ''org/m'' = Some ''model-Q4_K_M.gguf''"
    using find_best_gguf_file_priority [of "\<lambda>_. Inr ?F1" "''org/m''" ?F1, OF refl]
    by (simp only: s1) (simp add: ev)
  have s2: "{f \<in> set ?F2. suffix ''.gguf'' f \<and> sublist ''Q3_K'' f} = {''model-Q3_K.gguf''}"
    by (auto simp: ev)
  have h2: "\<not> (\<exists>f\<in>set ?F2. suffix ''.gguf'' f \<and> sublist ''Q4_K_M'' f)"
    by (simp add: ev)
  have b2: "\<forall>q\<in>set [''Q4_0'', ''Q4_K'']. \<not> (\<exists>f\<in>set ?F2. suffix ''.gguf'' f \<and> sublist q f)"
    by (simp add: ev)
  have p2: "\<exists>f\<in>set ?F2. suffix ''.gguf'' f \<and> sublist ''Q3_K'' f"
    by (simp add: ev)
  have "find_best_gguf_file (\<lambda>_. Inr ?F2) ''org/m'' =
          Some (Min {f \<in> set ?F2. suffix ''.gguf'' f \<and> sublist ''Q3_K'' f})"
    using find_best_gguf_file_priority [of "\<lambda>_. Inr ?F2" "''org/m''" ?F2, OF refl] h2 b2 p2
    by (elim conjE) (erule impE, assumption, erule allE [of _ "[''Q4_0'', ''Q4_K'']"],
        erule allE [of _ "''Q3_K''"], erule allE [of _ "[''Q5_K'', ''Q2_K'', ''Q8_0'']"], simp)
  then have r2: "find_best_gguf_file (\<lambda>_. Inr ?F2) ''org/m'' = Some ''model-Q3_K.gguf''"
    by (simp only: s2) simp
  have s3: "{f \<in> set ?F3. suffix ''.gguf'' f} = {''a.gguf'', ''b.gguf''}"
    by (auto simp: ev)
  have h3: "\<not> (\<exists>f\<in>set ?F3. suffix ''.gguf'' f \<and> sublist ''Q4_K_M'' f)"
    by (simp add: ev)
  have n3: "\<forall>q\<in>set [''Q4_0'', ''Q4_K'', ''Q3_K'', ''Q5_K'', ''Q2_K'', ''Q8_0''].
              \<not> (\<exists>f\<in>set ?F3. suffix ''.gguf'' f \<and> sublist q f)"
    by (simp add: ev)
  have g3: "\<exists>f\<in>set ?F3. suffix ''.gguf'' f"
    by (simp add: ev)
  have "find_best_gguf_file (\<lambda>_. Inr ?F3) ''org/m'' = Some (Min {f \<in> set ?F3. suffix ''.gguf'' f})"
    using find_best_gguf_file_priority [of "\<lambda>_. Inr ?F3" "''org/m''" ?F3, OF refl] h3 n3 g3
    by blast
  then have r3: "find_best_gguf_file (\<lambda>_. Inr ?F3) ''org/m'' = Some ''a.gguf''"
    by (simp only: s3) simp
  have g4: "\<not> (\<exists>f\<in>set ?F4. suffix ''.gguf'' f)"
    by (simp add: ev)
  have r4: "find_best_gguf_file (\<lambda>_. Inr ?F4) ''org/m'' = None"
    using find_best_gguf_file_priority [of "\<lambda>_. Inr ?F4" "''org/m''" ?F4, OF refl] g4
    by blast
  show ?thesis using r1 r2 r3 r4 by (intro conjI)
qed

section \<open>Candidate Filter: what the loop computes\<close>

text \<open>
  The loop keeps the models that pass the three tests, in the order of the input, and
  stops after \<open>max_models\<close> of them; the test of the cap comes after the first model
  has been appended, so one model is kept also for a cap below 1.
\<close>

lemma any_in_sublist: "any_in markers s = (\<exists>x\<in>set markers. sublist x s)"
  by (simp add: any_in_def list_ex_iff py_in_sublist)

lemma filter_loop_take:
  fixes so :: bool and cats :: "string list option"
  defines "K \<equiv> (\<lambda>m. \<not> (case cats of None \<Rightarrow> False
                    | Some cs \<Rightarrow> cs \<noteq> [] \<and> \<not> list_ex (\<lambda>cat. py_in (lower cat) (lower (model_id m))) cs) \<and>
                  \<not> (so \<and> any_in [''70b'', ''30b'', ''40b'', ''65b'', ''13b''] (lower (model_id m))) \<and>
                  \<not> (so \<and> \<not> any_in [''1b'', ''2b'', ''3b'', ''5b'', ''7b'', ''8b''] (lower (model_id m))))"
  assumes "int (length acc) < max 1 mx"
  shows "filter_loop mx so cats acc models =
     acc @ take (nat (max 1 mx) - length acc) (filter K models)"
  using assms(2)
proof (induction models arbitrary: acc)
  case Nil
  then show ?case by simp
next
  case (Cons m ms)
  let ?N = "nat (max 1 mx)"
  have skip: "filter_loop mx so cats acc (m # ms) = filter_loop mx so cats acc ms" if "\<not> K m"
    using that unfolding K_def by (auto simp del: any_in_def split: option.splits)
  have keep: "filter_loop mx so cats acc (m # ms) =
      (if int (length (acc @ [m])) \<ge> mx then acc @ [m]
       else filter_loop mx so cats (acc @ [m]) ms)" if "K m"
    using that unfolding K_def by (auto simp add: Let_def split: option.splits)
  from Cons.prems have room: "length acc < ?N" by linarith
  then obtain k where k: "?N - length acc = Suc k"
    by (metis Suc_diff_Suc)
  show ?case
  proof (cases "K m")
    case False
    with skip Cons.IH [OF Cons.prems] show ?thesis by simp
  next
    case Km: True
    show ?thesis
    proof (cases "int (length (acc @ [m])) \<ge> mx")
      case True
      then have "k = 0" using k Cons.prems by (simp split: if_splits)
      with True k Km keep show ?thesis by simp
    next
      case False
      then have pre: "int (length (acc @ [m])) < max 1 mx" by simp
      have "?N - length (acc @ [m]) = k" using k by simp
      with False k Km keep Cons.IH [OF pre] show ?thesis by simp
    qed
  qed
qed


lemma get_trending_take:
  "get_trending_gguf_models (Inr models) mx so cats =
     Inr (take (nat (max 1 mx))
       (filter (\<lambda>m. \<not> (case cats of None \<Rightarrow> False
                    | Some cs \<Rightarrow> cs \<noteq> [] \<and> \<not> list_ex (\<lambda>cat. py_in (lower cat) (lower (model_id m))) cs) \<and>
                  \<not> (so \<and> any_in [''70b'', ''30b'', ''40b'', ''65b'', ''13b''] (lower (model_id m))) \<and>
                  \<not> (so \<and> \<not> any_in [''1b'', ''2b'', ''3b'', ''5b'', ''7b'', ''8b''] (lower (model_id m))))
          models))"
  using filter_loop_take [of "[]" mx so cats models]
  by (simp add: get_trending_gguf_models_def del: any_in_def)

lemma get_trending_shape:
  "\<exists>K. get_trending_gguf_models (Inr models) mx so cats =
     Inr (take (nat (max 1 mx)) (filter K models))"
  by (rule exI) (rule get_trending_take)

lemma get_trending_subseq:
  assumes "get_trending_gguf_models (Inr models) mx so cats = Inr out"
  shows "subseq out models"
proof -
  from get_trending_shape [of models mx so cats] obtain K
    where "get_trending_gguf_models (Inr models) mx so cats =
             Inr (take (nat (max 1 mx)) (filter K models))" ..
  with assms have out: "out = take (nat (max 1 mx)) (filter K models)"
    by simp
  have "subseq (take (nat (max 1 mx)) (filter K models)) (filter K models)"
    by (rule prefix_imp_subseq [OF take_is_prefix])
  moreover have "subseq (filter K models) models"
    by (rule subseq_filter_left)
  ultimately show ?thesis
    unfolding out by (rule subseq_order.trans)
qed

lemma get_trending_length:
  assumes "get_trending_gguf_models (Inr models) mx so cats = Inr out"
  shows "int (length out) \<le> max 1 mx"
proof -
  from get_trending_shape [of models mx so cats] obtain K
    where "get_trending_gguf_models (Inr models) mx so cats =
             Inr (take (nat (max 1 mx)) (filter K models))" ..
  with assms have "out = take (nat (max 1 mx)) (filter K models)"
    by simp
  then have "length out \<le> nat (max 1 mx)"
    by simp
  then show ?thesis by linarith
qed

lemma keep_small_iff:
  "(\<not> (case cats of None \<Rightarrow> False | Some cs \<Rightarrow> cs \<noteq> [] \<and> \<not> C cs) \<and> \<not> (True \<and> L) \<and> \<not> (True \<and> \<not> S)) =
   ((case cats of None \<Rightarrow> True | Some cs \<Rightarrow> cs = [] \<or> C cs) \<and> S \<and> \<not> L)"
  by (cases cats) auto

lemma take_filter_ball: "\<forall>m\<in>set (take n (filter (\<lambda>m. A m \<and> B m) xs)). B m"
  by (auto dest: in_set_takeD)


text \<open>
  Claim C2. With \<open>small_only\<close> set, the filter returns the first models of the input
  (up to the cap) whose lower-cased id passes the category filter, contains one of
  \<^verbatim>\<open>1b, 2b, 3b, 5b, 7b, 8b\<close> and contains none of \<^verbatim>\<open>70b, 30b, 40b, 65b, 13b\<close>.
  So every model of the output has a small marker and no large marker: a model with a
  large marker is left out even when it has a small one, and so is a model with no small
  marker.
\<close>

theorem size_filter_allow_list:
  "get_trending_gguf_models (Inr models) mx True cats =
     Inr (take (nat (max 1 mx))
       (filter (\<lambda>m. (case cats of None \<Rightarrow> True
                    | Some cs \<Rightarrow> cs = [] \<or> (\<exists>cat\<in>set cs. sublist (lower cat) (lower (model_id m)))) \<and>
                  (\<exists>x\<in>set [''1b'', ''2b'', ''3b'', ''5b'', ''7b'', ''8b'']. sublist x (lower (model_id m))) \<and>
                  \<not> (\<exists>x\<in>set [''70b'', ''30b'', ''40b'', ''65b'', ''13b'']. sublist x (lower (model_id m))))
          models)) \<and>
   (\<forall>out. get_trending_gguf_models (Inr models) mx True cats = Inr out \<longrightarrow>
      (\<forall>m\<in>set out.
         (\<exists>x\<in>set [''1b'', ''2b'', ''3b'', ''5b'', ''7b'', ''8b'']. sublist x (lower (model_id m))) \<and>
         \<not> (\<exists>x\<in>set [''70b'', ''30b'', ''40b'', ''65b'', ''13b'']. sublist x (lower (model_id m)))))"
proof -
  let ?small = "\<lambda>m. \<exists>x\<in>set [''1b'', ''2b'', ''3b'', ''5b'', ''7b'', ''8b'']. sublist x (lower (model_id m))"
  let ?large = "\<lambda>m. \<exists>x\<in>set [''70b'', ''30b'', ''40b'', ''65b'', ''13b'']. sublist x (lower (model_id m))"
  let ?cat = "\<lambda>m. case cats of None \<Rightarrow> True
                    | Some cs \<Rightarrow> cs = [] \<or> (\<exists>cat\<in>set cs. sublist (lower cat) (lower (model_id m)))"
  let ?out = "take (nat (max 1 mx)) (filter (\<lambda>m. ?cat m \<and> ?small m \<and> \<not> ?large m) models)"
  have eq: "get_trending_gguf_models (Inr models) mx True cats = Inr ?out"
    by (simp only: get_trending_take any_in_sublist list_ex_iff py_in_sublist keep_small_iff)
  have all: "\<forall>m\<in>set ?out. ?small m \<and> \<not> ?large m"
    by (rule take_filter_ball)
  show ?thesis
  proof (intro conjI allI impI)
    show "get_trending_gguf_models (Inr models) mx True cats = Inr ?out"
      by (rule eq)
  next
    fix out
    assume "get_trending_gguf_models (Inr models) mx True cats = Inr out"
    then have "Inr out = (Inr ?out :: py_error + model_info list)"
      by (simp only: eq)
    then have out: "out = ?out"
      by (simp only: sum.inject)
    show "\<forall>m\<in>set out. ?small m \<and> \<not> ?large m"
      unfolding out by (rule all)
  qed
qed

text \<open>
  C2 on four descriptors: one large, one without a marker, one with both markers, one
  small. Only the last one is returned.
\<close>

theorem size_filter_allow_list_witness:
  "get_trending_gguf_models
     (Inr [\<lparr>model_id = ''meta/Llama-70B-GGUF'', downloads = 900\<rparr>,
           \<lparr>model_id = ''microsoft/phi-2-GGUF'', downloads = 800\<rparr>,
           \<lparr>model_id = ''acme/Mix-7B-13B-GGUF'', downloads = 700\<rparr>,
           \<lparr>model_id = ''google/Gemma-2B-GGUF'', downloads = 600\<rparr>])
     5 True None =
   Inr [\<lparr>model_id = ''google/Gemma-2B-GGUF'', downloads = 600\<rparr>] \<and>
   (\<exists>x\<in>set [''1b'', ''2b'', ''3b'', ''5b'', ''7b'', ''8b'']. sublist x (lower ''google/Gemma-2B-GGUF'')) \<and>
   \<not> (\<exists>x\<in>set [''70b'', ''30b'', ''40b'', ''65b'', ''13b'']. sublist x (lower ''google/Gemma-2B-GGUF''))"
proof -
  let ?models = "[\<lparr>model_id = ''meta/Llama-70B-GGUF'', downloads = 900\<rparr>,
           \<lparr>model_id = ''microsoft/phi-2-GGUF'', downloads = 800\<rparr>,
           \<lparr>model_id = ''acme/Mix-7B-13B-GGUF'', downloads = 700\<rparr>,
           \<lparr>model_id = ''google/Gemma-2B-GGUF'', downloads = 600\<rparr>]"
  have run: "get_trending_gguf_models (Inr ?models) 5 True None =
      Inr [\<lparr>model_id = ''google/Gemma-2B-GGUF'', downloads = 600\<rparr>]"
    by code_simp
  note allow = conjunct2 [OF size_filter_allow_list [of ?models 5 None], rule_format, OF run,
      of "\<lparr>model_id = ''google/Gemma-2B-GGUF'', downloads = 600\<rparr>"]
  have "(\<exists>x\<in>set [''1b'', ''2b'', ''3b'', ''5b'', ''7b'', ''8b''].
                sublist x (lower (model_id \<lparr>model_id = ''google/Gemma-2B-GGUF'', downloads = 600\<rparr>))) \<and>
         \<not> (\<exists>x\<in>set [''70b'', ''30b'', ''40b'', ''65b'', ''13b''].
                sublist x (lower (model_id \<lparr>model_id = ''google/Gemma-2B-GGUF'', downloads = 600\<rparr>)))"
    by (rule allow) (simp only: list.set insertI1)
  then have "(\<exists>x\<in>set [''1b'', ''2b'', ''3b'', ''5b'', ''7b'', ''8b''].
                sublist x (lower ''google/Gemma-2B-GGUF'')) \<and>
         \<not> (\<exists>x\<in>set [''70b'', ''30b'', ''40b'', ''65b'', ''13b''].
                sublist x (lower ''google/Gemma-2B-GGUF''))"
    by (simp only: model_info.select_convs simp_thms)
  with run show ?thesis by (rule conjI)
qed


text \<open>
  Claim C3 asks for an output of at most \<open>max\<close> descriptors for every \<open>max\<close>. The
  lemmas \<open>get_trending_subseq\<close> and \<open>get_trending_length\<close> give the order and the bound
  \<open>max 1 max_models\<close>. With \<^verbatim>\<open>--num-models 0\<close> the loop appends the first qualifying
  model before it looks at the cap, and returns one descriptor.
\<close>

theorem filter_cap_exceeded_at_zero:
  "get_trending_gguf_models (Inr [\<lparr>model_id = ''microsoft/phi-2-GGUF'', downloads = 800\<rparr>])
     0 False None =
   Inr [\<lparr>model_id = ''microsoft/phi-2-GGUF'', downloads = 800\<rparr>]"
  by code_simp

section \<open>Name Normalizer: splitting, replacing, stripping\<close>

lemma split_scan_no_sep:
  "\<not> sublist sep s \<Longrightarrow> split_scan sep cur s = [cur @ s]"
  by (induction s arbitrary: cur) (auto simp: sublist_Cons_right)

lemma split_scan_ne: "split_scan sep cur s \<noteq> []"
  by (induction sep cur s rule: split_scan.induct) auto

lemma last_split_scan_char:
  "last (split_scan [d] cur (xs @ d # s)) = last (split_scan [d] [] s)"
  by (induction xs arbitrary: cur) (auto simp: split_scan_ne)

lemma sublist_single: "sublist [d] s = (d \<in> set s)"
  by (induction s) (auto simp: sublist_Cons_right)

lemma last_py_split_no_slash:
  "CHR ''/'' \<notin> set seg \<Longrightarrow> last (py_split ''/'' seg) = seg"
  by (simp add: py_split_def split_scan_no_sep sublist_single)

lemma last_py_split_owner:
  "CHR ''/'' \<notin> set seg \<Longrightarrow> last (py_split ''/'' (owner @ ''/'' @ seg)) = seg"
  using last_split_scan_char [of "CHR ''/''" "[]" owner seg]
  by (simp add: py_split_def split_scan_no_sep sublist_single)

lemma replace_scan_absent:
  "\<not> sublist old s \<Longrightarrow> replace_scan old new s = s"
  by (induction s) (auto simp: sublist_Cons_right)

lemma replace_scan_skip:
  "o1 \<notin> set a \<Longrightarrow> replace_scan (o1 # os) new (a @ s) = a @ replace_scan (o1 # os) new s"
  by (induction a) auto

lemma replace_scan_hit:
  "old \<noteq> [] \<Longrightarrow> replace_scan old new (old @ s) = new @ replace_scan old new s"
  by (cases old) auto

lemma py_strip_id:
  assumes "s = [] \<or> (hd s \<notin> set chars \<and> last s \<notin> set chars)"
  shows "py_strip chars s = s"
proof (cases "s = []")
  case True
  then show ?thesis by (simp add: py_strip_def)
next
  case False
  with assms have h: "hd s \<notin> set chars" and l: "last s \<notin> set chars" by auto
  have dw_fwd: "dropWhile (\<lambda>c. c \<in> set chars) s = s"
    using h by (simp add: dropWhile_eq_self_iff)
  have "hd (rev s) = last s" using False by (simp add: hd_rev)
  then have dw_rev: "dropWhile (\<lambda>c. c \<in> set chars) (rev s) = rev s"
    using l by (simp add: dropWhile_eq_self_iff)
  show ?thesis by (simp add: py_strip_def dw_fwd dw_rev)
qed

lemma set_py_strip: "set (py_strip chars s) \<subseteq> set s"
  unfolding py_strip_def
  by (metis set_rev set_dropWhileD subsetI)

section \<open>Name Normalizer: the characters of a name\<close>

lemma lower_char_cases:
  "lower_char c = c \<or> lower_char c \<in> set ''abcdefghijklmnopqrstuvwxyz''"
  by (simp add: lower_char_def)

lemma isalnum_lower_char: "isalnum c \<Longrightarrow> isalnum (lower_char c)"
  using lower_char_cases [of c] by (auto simp: isalnum_def)

lemma lower_char_dot: "(lower_char c = CHR ''.'') = (c = CHR ''.'')"
  using lower_char_cases [of c] by (auto simp: lower_char_def)

lemma lower_char_keeps:
  "lower_char CHR ''-'' = CHR ''-''" "lower_char CHR ''_'' = CHR ''_''"
  by (simp_all add: lower_char_def)

lemma not_isalnum_punct:
  "\<not> isalnum CHR ''-''" "\<not> isalnum CHR ''_''" "\<not> isalnum CHR ''/''" "\<not> isalnum CHR ''.''"
  "\<not> isalnum CHR 0x0A"
  by (simp_all add: isalnum_def)

lemma lower_append: "lower (a @ b) = lower a @ lower b"
  by (simp add: lower_def)

lemma lower_gguf: "lower ''-gguf'' = ''-gguf''"
  by code_simp

lemma clean_map_id:
  "\<forall>c\<in>set s. isalnum c \<or> c = CHR ''-'' \<or> c = CHR ''_'' \<Longrightarrow>
   map (\<lambda>c. if isalnum c \<or> c \<in> set [CHR ''-'', CHR ''_''] then c else CHR ''-'') s = s"
  by (induction s) auto

lemma strip_map_chars:
  assumes "c \<in> set (py_strip chars (map (\<lambda>x. if P x then x else d) t))"
  shows "P c \<or> c = d"
proof -
  from assms set_py_strip have "c \<in> set (map (\<lambda>x. if P x then x else d) t)"
    by blast
  then show ?thesis by auto
qed

lemma simplified_model_name_chars:
  assumes "c \<in> set (simplified_model_name mid)"
  shows "isalnum c \<or> c = CHR ''-'' \<or> c = CHR ''_''"
  using strip_map_chars [OF assms [unfolded simplified_model_name_def Let_def]]
  by auto

lemma simplified_model_name_plain:
  assumes low: "lower s = s"
    and clean: "\<forall>c\<in>set s. isalnum c \<or> c = CHR ''-'' \<or> c = CHR ''_''"
    and fam: "\<not> sublist ''llama'' s" "\<not> sublist ''mistral'' s"
    and gg: "\<not> sublist ''-gguf'' s"
    and ends: "s = [] \<or> (hd s \<notin> set ''-_'' \<and> last s \<notin> set ''-_'')"
  shows "simplified_model_name s = s"
proof -
  have "CHR ''/'' \<notin> set s"
    using clean not_isalnum_punct by auto
  then have seg: "last (py_split ''/'' s) = s"
    by (rule last_py_split_no_slash)
  have rep: "py_replace ''-gguf'' [] s = s"
    using gg by (simp add: py_replace_def replace_scan_absent)
  have strip: "py_strip ''-_'' s = s"
    using ends by (rule py_strip_id)
  show ?thesis
    unfolding simplified_model_name_def Let_def
    by (simp only: seg low py_in_sublist fam if_False rep clean_map_id [OF clean] strip)
qed

lemma simplified_model_name_gguf:
  assumes a: "\<forall>c\<in>set a. isalnum c"
    and b: "\<forall>c\<in>set b. isalnum c \<or> c = CHR ''-'' \<or> c = CHR ''_''"
    and ane: "a \<noteq> []"
    and bend: "b = [] \<or> last b \<notin> set ''-_''"
    and fam: "\<not> sublist ''llama'' (lower (a @ ''-gguf'' @ b))"
             "\<not> sublist ''mistral'' (lower (a @ ''-gguf'' @ b))"
    and gg: "\<not> sublist ''-gguf'' (lower b)"
  shows "simplified_model_name (owner @ ''/'' @ a @ ''-gguf'' @ b) = lower a @ lower b"
proof -
  let ?seg = "a @ ''-gguf'' @ b"
  have la: "\<forall>c\<in>set (lower a). isalnum c"
    using a by (auto simp: lower_def isalnum_lower_char)
  have lb: "\<forall>c\<in>set (lower b). isalnum c \<or> c = CHR ''-'' \<or> c = CHR ''_''"
    using b by (auto simp: lower_def isalnum_lower_char lower_char_keeps)
  have "CHR ''/'' \<notin> set ?seg"
    using a b not_isalnum_punct by auto
  then have seg: "last (py_split ''/'' (owner @ ''/'' @ ?seg)) = ?seg"
    by (rule last_py_split_owner)
  have low: "lower ?seg = lower a @ ''-gguf'' @ lower b"
    by (simp only: lower_append lower_gguf)
  have dash: "CHR ''-'' \<notin> set (lower a)"
    using la not_isalnum_punct by auto
  have "replace_scan ''-gguf'' [] (lower a @ ''-gguf'' @ lower b) =
        lower a @ replace_scan ''-gguf'' [] (''-gguf'' @ lower b)"
    using dash by (rule replace_scan_skip)
  also have "replace_scan ''-gguf'' [] (''-gguf'' @ lower b) = [] @ replace_scan ''-gguf'' [] (lower b)"
    by (rule replace_scan_hit) simp
  also have "replace_scan ''-gguf'' [] (lower b) = lower b"
    using gg by (rule replace_scan_absent)
  finally have rep: "py_replace ''-gguf'' [] (lower a @ ''-gguf'' @ lower b) = lower a @ lower b"
    by (simp add: py_replace_def)
  have clean: "\<forall>c\<in>set (lower a @ lower b). isalnum c \<or> c = CHR ''-'' \<or> c = CHR ''_''"
    using la lb by auto
  have lane: "lower a \<noteq> []" using ane by (simp add: lower_def)
  have hd_ok: "hd (lower a @ lower b) \<notin> set ''-_''"
    using la lane not_isalnum_punct by (cases "lower a") auto
  have last_ok: "last (lower a @ lower b) \<notin> set ''-_''"
  proof (cases "b = []")
    case True
    then have "last (lower a @ lower b) = last (lower a)" by (simp add: lower_def)
    moreover have "isalnum (last (lower a))" using la lane last_in_set by blast
    ultimately show ?thesis using not_isalnum_punct by auto
  next
    case False
    with bend have lb_end: "last b \<notin> set ''-_''" by simp
    have "isalnum (last b)" using b False lb_end last_in_set [of b] by auto
    then have "isalnum (lower_char (last b))" by (rule isalnum_lower_char)
    moreover have "last (lower a @ lower b) = lower_char (last b)"
      using False by (simp add: lower_def last_map)
    ultimately show ?thesis using not_isalnum_punct by auto
  qed
  have strip: "py_strip ''-_'' (lower a @ lower b) = lower a @ lower b"
    by (rule py_strip_id) (use hd_ok last_ok in blast)
  note fam' = fam [unfolded low]
  show ?thesis
    unfolding simplified_model_name_def Let_def
    by (simp only: seg low py_in_sublist fam' if_False rep clean_map_id [OF clean] strip)
qed

section \<open>Name Normalizer: the family hyphen and the \<^verbatim>\<open>-gguf\<close> marker\<close>

text \<open>
  Claim C4 says that normalizing \<^verbatim>\<open>llama-3-8b\<close> gives \<^verbatim>\<open>llama-3-8b\<close> again. The
  code does not do so: the family rewrite of line 260 puts \<^verbatim>\<open>llama-\<close> in front of the
  text after the last \<^verbatim>\<open>llama\<close>, which is \<^verbatim>\<open>-3-8b\<close> here, and the result is
  \<^verbatim>\<open>llama--3-8b\<close>, with two hyphens. The markers of the Alias Emitter (lines 182 and
  200: \<^verbatim>\<open>llama-3-8\<close>, \<^verbatim>\<open>llama-3-1b\<close>, \<^verbatim>\<open>mistral-7\<close>) are written for names with one
  hyphen: they select \<^verbatim>\<open>llama-3-8b\<close> and \<^verbatim>\<open>mistral-7b-instruct-v0-2\<close>, and none of
  them selects the names that the normalizer makes from the ids
  \<^verbatim>\<open>meta-llama/Meta-Llama-3-8B-GGUF\<close> and \<^verbatim>\<open>TheBloke/Mistral-7B-Instruct-v0.2-GGUF\<close>.
\<close>

theorem normalizer_doubles_family_hyphen:
  "simplified_model_name ''llama-3-8b'' = ''llama--3-8b'' \<and>
   simplified_model_name ''llama-3-8b'' \<noteq> ''llama-3-8b'' \<and>
   simplified_model_name ''meta-llama/Meta-Llama-3-8B-GGUF'' = ''llama--3-8b'' \<and>
   simplified_model_name ''TheBloke/Mistral-7B-Instruct-v0.2-GGUF'' =
     ''mistral--7b-instruct-v0-2'' \<and>
   large_models [simplified_model_name ''meta-llama/Meta-Llama-3-8B-GGUF'',
                 simplified_model_name ''TheBloke/Mistral-7B-Instruct-v0.2-GGUF''] = [] \<and>
   large_models [''llama-3-8b'', ''mistral-7b-instruct-v0-2''] =
     [''llama-3-8b'', ''mistral-7b-instruct-v0-2'']"
  by code_simp

text \<open>
  Claim C5 says that a \<^verbatim>\<open>-gguf\<close> which is not at the end of the repo segment is kept.
  Line 265 is \<^verbatim>\<open>replace('-gguf', '')\<close>, which removes the marker wherever it stands:
  in \<^verbatim>\<open>phi-gguf-v2\<close> the marker occurs, not at the end, and the name is \<^verbatim>\<open>phi-v2\<close>.
\<close>

theorem gguf_marker_removed_inside:
  "sublist ''-gguf'' ''phi-gguf-v2'' \<and> \<not> suffix ''-gguf'' ''phi-gguf-v2'' \<and>
   simplified_model_name ''microsoft/phi-gguf-v2'' = ''phi-v2'' \<and>
   \<not> sublist ''-gguf'' (simplified_model_name ''microsoft/phi-gguf-v2'')"
  by code_simp

text \<open>
  Claim C5 as amended: the removal step deletes \<^verbatim>\<open>-gguf\<close> wherever it stands. For a
  repo segment \<open>a-gguf b\<close> with \<open>a\<close> alphanumeric and not empty, \<open>b\<close> of alphanumerics,
  \<^verbatim>\<open>-\<close> and \<^verbatim>\<open>_\<close> not ending in \<^verbatim>\<open>-\<close> or \<^verbatim>\<open>_\<close>, no further \<^verbatim>\<open>-gguf\<close> in \<open>b\<close>
  and no family word in the segment, the name is the lower-cased \<open>a\<close> followed by the
  lower-cased \<open>b\<close>, whether \<open>b\<close> is empty (a trailing marker) or not.
\<close>

theorem gguf_marker_removed_everywhere:
  assumes "\<forall>c\<in>set a. isalnum c"
    and "\<forall>c\<in>set b. isalnum c \<or> c = CHR ''-'' \<or> c = CHR ''_''"
    and "a \<noteq> []"
    and "b = [] \<or> last b \<notin> set ''-_''"
    and "\<not> sublist ''llama'' (lower (a @ ''-gguf'' @ b))"
    and "\<not> sublist ''mistral'' (lower (a @ ''-gguf'' @ b))"
    and "\<not> sublist ''-gguf'' (lower b)"
  shows "simplified_model_name (owner @ ''/'' @ a @ ''-gguf'' @ b) = lower a @ lower b"
  using assms by (rule simplified_model_name_gguf)

text \<open>The amended C5 on the id \<^verbatim>\<open>microsoft/Phi-gguf-v2\<close>.\<close>

theorem gguf_marker_removed_everywhere_witness:
  "simplified_model_name (''microsoft'' @ ''/'' @ ''Phi'' @ ''-gguf'' @ ''-v2'') =
     lower ''Phi'' @ lower ''-v2'' \<and>
   lower ''Phi'' @ lower ''-v2'' = ''phi-v2''"
proof -
  have h1: "\<forall>c\<in>set ''Phi''. isalnum c" by code_simp
  have h2: "\<forall>c\<in>set ''-v2''. isalnum c \<or> c = CHR ''-'' \<or> c = CHR ''_''" by code_simp
  have h3: "''Phi'' \<noteq> []" by simp
  have h4: "''-v2'' = [] \<or> last ''-v2'' \<notin> set ''-_''" by simp
  have h5: "\<not> sublist ''llama'' (lower (''Phi'' @ ''-gguf'' @ ''-v2''))" by code_simp
  have h6: "\<not> sublist ''mistral'' (lower (''Phi'' @ ''-gguf'' @ ''-v2''))" by code_simp
  have h7: "\<not> sublist ''-gguf'' (lower ''-v2'')" by code_simp
  have "lower ''Phi'' @ lower ''-v2'' = ''phi-v2''" by code_simp
  with gguf_marker_removed_everywhere [OF h1 h2 h3 h4 h5 h6 h7, of "''microsoft''"]
  show ?thesis by (rule conjI)
qed

section \<open>Config Emitter: the file it writes\<close>

lemma threads_range:
  "2 \<le> max 2 (min (cpu_cores div 2) 8) \<and> max 2 (min (cpu_cores div 2) 8) \<le> (8::int)"
  by simp

lemma create_model_config_ok:
  "\<not> write_refused fs (path_join cfg_dir (model_name @ ''.yaml'')) \<Longrightarrow>
   create_model_config cpu_cores model_name model_file cfg_dir fs =
     (Inr (path_join cfg_dir (model_name @ ''.yaml'')),
      fs\<lparr>files := (files fs)(path_join cfg_dir (model_name @ ''.yaml'') \<mapsto>
            config_content model_name model_file (max 2 (min (cpu_cores div 2) 8)))\<rparr>)"
  by (simp add: create_model_config_def write_file_def Let_def)

lemma create_model_config_refused:
  "write_refused fs (path_join cfg_dir (model_name @ ''.yaml'')) \<Longrightarrow>
   create_model_config cpu_cores model_name model_file cfg_dir fs = (Inl OSError, fs)"
  by (simp add: create_model_config_def write_file_def Let_def)

lemma config_content_head:
  "\<exists>rest. config_content model_name model_file t =
     ''name: '' @ model_name @ ''\<newline>'' @
     ''backend: llama-cpp\<newline>'' @
     ''parameters:\<newline>'' @
     ''  model: /models/'' @ model_file @ ''\<newline>'' @
     ''  context_size: 2048\<newline>'' @
     ''  threads: '' @ py_str t @ ''\<newline>'' @ rest"
  unfolding config_content_def by (rule exI) (rule refl)

text \<open>
  Claim C6. The thread count \<open>max 2 (min (cpu_cores div 2) 8)\<close> lies between 2 and 8
  for every core count. Where the file system accepts the write, \<open>create_model_config\<close>
  returns the path \<^verbatim>\<open><config_dir>/<model_name>.yaml\<close> and leaves there a text that
  starts with the lines \<^verbatim>\<open>name: <model_name>\<close>, \<^verbatim>\<open>backend: llama-cpp\<close>,
  \<^verbatim>\<open>parameters:\<close>, \<^verbatim>\<open>model: /models/<model_file>\<close>, \<^verbatim>\<open>context_size: 2048\<close> and
  \<^verbatim>\<open>threads:\<close> with that thread count; where the write is refused, the \<^verbatim>\<open>OSError\<close>
  is the result and the file system is unchanged.
\<close>

theorem config_emitter_content:
  "2 \<le> max 2 (min (cpu_cores div 2) 8) \<and> max 2 (min (cpu_cores div 2) 8) \<le> (8::int) \<and>
   (write_refused fs (path_join cfg_dir (model_name @ ''.yaml'')) \<longrightarrow>
      create_model_config cpu_cores model_name model_file cfg_dir fs = (Inl OSError, fs)) \<and>
   (\<not> write_refused fs (path_join cfg_dir (model_name @ ''.yaml'')) \<longrightarrow>
      (\<exists>content rest.
         create_model_config cpu_cores model_name model_file cfg_dir fs =
           (Inr (path_join cfg_dir (model_name @ ''.yaml'')),
            fs\<lparr>files := (files fs)(path_join cfg_dir (model_name @ ''.yaml'') \<mapsto> content)\<rparr>) \<and>
         content =
           ''name: '' @ model_name @ ''\<newline>'' @
           ''backend: llama-cpp\<newline>'' @
           ''parameters:\<newline>'' @
           ''  model: /models/'' @ model_file @ ''\<newline>'' @
           ''  context_size: 2048\<newline>'' @
           ''  threads: '' @ py_str (max 2 (min (cpu_cores div 2) 8)) @ ''\<newline>'' @ rest))"
proof (intro conjI impI)
  show "2 \<le> max 2 (min (cpu_cores div 2) 8)" by simp
  show "max 2 (min (cpu_cores div 2) 8) \<le> 8" by simp
next
  assume "write_refused fs (path_join cfg_dir (model_name @ ''.yaml''))"
  then show "create_model_config cpu_cores model_name model_file cfg_dir fs = (Inl OSError, fs)"
    by (rule create_model_config_refused)
next
  assume ok: "\<not> write_refused fs (path_join cfg_dir (model_name @ ''.yaml''))"
  from config_content_head [of model_name model_file "max 2 (min (cpu_cores div 2) 8)"]
  obtain rest where "config_content model_name model_file (max 2 (min (cpu_cores div 2) 8)) =
     ''name: '' @ model_name @ ''\<newline>'' @
     ''backend: llama-cpp\<newline>'' @
     ''parameters:\<newline>'' @
     ''  model: /models/'' @ model_file @ ''\<newline>'' @
     ''  context_size: 2048\<newline>'' @
     ''  threads: '' @ py_str (max 2 (min (cpu_cores div 2) 8)) @ ''\<newline>'' @ rest" ..
  with create_model_config_ok [OF ok, of cpu_cores model_file]
  show "\<exists>content rest.
         create_model_config cpu_cores model_name model_file cfg_dir fs =
           (Inr (path_join cfg_dir (model_name @ ''.yaml'')),
            fs\<lparr>files := (files fs)(path_join cfg_dir (model_name @ ''.yaml'') \<mapsto> content)\<rparr>) \<and>
         content =
           ''name: '' @ model_name @ ''\<newline>'' @
           ''backend: llama-cpp\<newline>'' @
           ''parameters:\<newline>'' @
           ''  model: /models/'' @ model_file @ ''\<newline>'' @
           ''  context_size: 2048\<newline>'' @
           ''  threads: '' @ py_str (max 2 (min (cpu_cores div 2) 8)) @ ''\<newline>'' @ rest"
    by blast
qed

text \<open>
  C6 on a host with 1 core (\<^verbatim>\<open>threads: 2\<close>) and on a host with 32 cores
  (\<^verbatim>\<open>threads: 8\<close>).
\<close>

theorem config_emitter_content_witness:
  "(\<exists>rest fs'.
      create_model_config 1 ''phi-2'' ''phi-2.Q4_K_M.gguf'' ''/opt/localai/config''
        \<lparr>files = Map.empty, write_refused = (\<lambda>_. False)\<rparr> =
        (Inr ''/opt/localai/config/phi-2.yaml'', fs') \<and>
      files fs' ''/opt/localai/config/phi-2.yaml'' =
        Some (''name: phi-2\<newline>backend: llama-cpp\<newline>parameters:\<newline>  model: /models/phi-2.Q4_K_M.gguf\<newline>  context_size: 2048\<newline>  threads: 2\<newline>'' @ rest)) \<and>
   (\<exists>rest fs'.
      create_model_config 32 ''phi-2'' ''phi-2.Q4_K_M.gguf'' ''/opt/localai/config''
        \<lparr>files = Map.empty, write_refused = (\<lambda>_. False)\<rparr> =
        (Inr ''/opt/localai/config/phi-2.yaml'', fs') \<and>
      files fs' ''/opt/localai/config/phi-2.yaml'' =
        Some (''name: phi-2\<newline>backend: llama-cpp\<newline>parameters:\<newline>  model: /models/phi-2.Q4_K_M.gguf\<newline>  context_size: 2048\<newline>  threads: 8\<newline>'' @ rest))"
proof -
  let ?fs = "\<lparr>files = Map.empty, write_refused = (\<lambda>_. False)\<rparr>"
  have path: "path_join ''/opt/localai/config'' (''phi-2'' @ ''.yaml'') =
                ''/opt/localai/config/phi-2.yaml''"
    by code_simp
  have t1: "py_str (max 2 (min (1 div 2) 8)) = ''2''" by code_simp
  have t32: "py_str (max 2 (min (32 div 2) 8)) = ''8''" by code_simp
  have nr: "\<not> write_refused ?fs (path_join ''/opt/localai/config'' (''phi-2'' @ ''.yaml''))"
    by simp
  note one = config_emitter_content [of 1 ?fs "''/opt/localai/config''" "''phi-2''"
      "''phi-2.Q4_K_M.gguf''", THEN conjunct2, THEN conjunct2, THEN conjunct2, THEN mp, OF nr]
  note many = config_emitter_content [of 32 ?fs "''/opt/localai/config''" "''phi-2''"
      "''phi-2.Q4_K_M.gguf''", THEN conjunct2, THEN conjunct2, THEN conjunct2, THEN mp, OF nr]
  from one obtain rest1 where
    "create_model_config 1 ''phi-2'' ''phi-2.Q4_K_M.gguf'' ''/opt/localai/config'' ?fs =
       (Inr ''/opt/localai/config/phi-2.yaml'',
        ?fs\<lparr>files := (files ?fs)(''/opt/localai/config/phi-2.yaml'' \<mapsto>
          ''name: phi-2\<newline>backend: llama-cpp\<newline>parameters:\<newline>  model: /models/phi-2.Q4_K_M.gguf\<newline>  context_size: 2048\<newline>  threads: 2\<newline>'' @ rest1)\<rparr>)"
    unfolding path t1 by auto
  then have first: "\<exists>rest fs'.
      create_model_config 1 ''phi-2'' ''phi-2.Q4_K_M.gguf'' ''/opt/localai/config'' ?fs =
        (Inr ''/opt/localai/config/phi-2.yaml'', fs') \<and>
      files fs' ''/opt/localai/config/phi-2.yaml'' =
        Some (''name: phi-2\<newline>backend: llama-cpp\<newline>parameters:\<newline>  model: /models/phi-2.Q4_K_M.gguf\<newline>  context_size: 2048\<newline>  threads: 2\<newline>'' @ rest)"
    by (intro exI [of _ rest1] exI conjI, assumption) simp
  from many obtain rest2 where
    "create_model_config 32 ''phi-2'' ''phi-2.Q4_K_M.gguf'' ''/opt/localai/config'' ?fs =
       (Inr ''/opt/localai/config/phi-2.yaml'',
        ?fs\<lparr>files := (files ?fs)(''/opt/localai/config/phi-2.yaml'' \<mapsto>
          ''name: phi-2\<newline>backend: llama-cpp\<newline>parameters:\<newline>  model: /models/phi-2.Q4_K_M.gguf\<newline>  context_size: 2048\<newline>  threads: 8\<newline>'' @ rest2)\<rparr>)"
    unfolding path t32 by auto
  then have second: "\<exists>rest fs'.
      create_model_config 32 ''phi-2'' ''phi-2.Q4_K_M.gguf'' ''/opt/localai/config'' ?fs =
        (Inr ''/opt/localai/config/phi-2.yaml'', fs') \<and>
      files fs' ''/opt/localai/config/phi-2.yaml'' =
        Some (''name: phi-2\<newline>backend: llama-cpp\<newline>parameters:\<newline>  model: /models/phi-2.Q4_K_M.gguf\<newline>  context_size: 2048\<newline>  threads: 8\<newline>'' @ rest)"
    by (intro exI [of _ rest2] exI conjI, assumption) simp
  from first second show ?thesis by (rule conjI)
qed

section \<open>Alias Emitter: replacing the name line\<close>

lemma replace_scan_keep_prefix:
  "old \<noteq> [] \<Longrightarrow> hd old \<notin> set p \<Longrightarrow>
   replace_scan old new (p @ s) = p @ replace_scan old new s"
  by (cases old) (simp_all add: replace_scan_skip)

lemma py_replace_at_start:
  "old \<noteq> [] \<Longrightarrow> py_replace old new (old @ s) = new @ py_replace old new s"
  by (simp add: py_replace_def replace_scan_hit)

lemma py_replace_keep_prefix:
  "old \<noteq> [] \<Longrightarrow> hd old \<notin> set p \<Longrightarrow> py_replace old new (p @ s) = p @ py_replace old new s"
  by (simp add: py_replace_def replace_scan_keep_prefix)

text \<open>The name line of a configuration is rewritten to the alias.\<close>

lemma rename_config:
  assumes "prefix (''name: '' @ m @ ''\<newline>'') src"
  shows "prefix (''name: '' @ alias @ ''\<newline>'')
           (py_replace (''name: '' @ m) (''name: '' @ alias) src)"
proof -
  from assms obtain rest where src: "src = (''name: '' @ m) @ (''\<newline>'' @ rest)"
    by (auto simp: prefix_def)
  have "py_replace (''name: '' @ m) (''name: '' @ alias) src =
        (''name: '' @ alias) @ py_replace (''name: '' @ m) (''name: '' @ alias) (''\<newline>'' @ rest)"
    unfolding src by (rule py_replace_at_start) simp
  also have "py_replace (''name: '' @ m) (''name: '' @ alias) (''\<newline>'' @ rest) =
        ''\<newline>'' @ py_replace (''name: '' @ m) (''name: '' @ alias) rest"
    by (rule py_replace_keep_prefix) simp_all
  finally show ?thesis by (simp add: prefix_def)
qed

lemma context_size_keeps_name:
  assumes "prefix ''name: gpt-4\<newline>'' config"
  shows "prefix ''name: gpt-4\<newline>''
           (py_replace ''context_size: 2048'' ''context_size: 4096'' config)"
proof -
  from assms obtain rest where c: "config = ''name: gpt-4\<newline>'' @ rest"
    by (auto simp: prefix_def)
  have "py_replace ''context_size: 2048'' ''context_size: 4096'' (''name: gpt-4\<newline>'' @ rest) =
        ''name: gpt-4\<newline>'' @ py_replace ''context_size: 2048'' ''context_size: 4096'' rest"
    by (rule py_replace_keep_prefix) simp_all
  then show ?thesis unfolding c by (simp add: prefix_def)
qed

lemma path_join_inject:
  "\<not> prefix ''/'' b \<Longrightarrow> \<not> prefix ''/'' b' \<Longrightarrow> (path_join a b = path_join a b') = (b = b')"
  by (auto simp: path_join_def)

lemma alias_paths_differ:
  "path_join d ''gpt-3.5-turbo.yaml'' \<noteq> path_join d ''gpt-4.yaml''"
  by (simp add: path_join_inject)

lemma clean_source_not_alias35:
  assumes "\<forall>c\<in>set m. isalnum c \<or> c = CHR ''-'' \<or> c = CHR ''_''"
  shows "path_join d (m @ ''.yaml'') \<noteq> path_join d ''gpt-3.5-turbo.yaml''"
proof -
  have nodot: "CHR ''.'' \<notin> set m" and noslash: "CHR ''/'' \<notin> set m"
    using assms not_isalnum_punct by auto
  have rel: "\<not> prefix ''/'' (m @ ''.yaml'')"
    using noslash by (cases m) auto
  have "m @ ''.yaml'' \<noteq> ''gpt-3.5-turbo.yaml''"
  proof
    assume "m @ ''.yaml'' = ''gpt-3.5-turbo.yaml''"
    then have "m @ ''.yaml'' = ''gpt-3.5-turbo'' @ ''.yaml''" by simp
    then have "m = ''gpt-3.5-turbo''" by (simp only: append_same_eq)
    with nodot show False by simp
  qed
  with rel show ?thesis by (simp add: path_join_inject)
qed

section \<open>Alias Emitter: what each block writes\<close>

lemma small_models_member: "small_models names = m # rest \<Longrightarrow> m \<in> set names"
proof -
  assume "small_models names = m # rest"
  then have "m \<in> set (small_models names)" by simp
  then show ?thesis unfolding small_models_def by simp
qed

lemma large_models_member: "large_models names = m # rest \<Longrightarrow> m \<in> set names"
proof -
  assume "large_models names = m # rest"
  then have "m \<in> set (large_models names)" by simp
  then show ?thesis unfolding large_models_def by simp
qed



lemma gpt35_alias_files:
  assumes "gpt35_alias d names fs = (r, fs')"
  shows "fs' = fs \<or>
    (\<exists>m rest src. small_models names = m # rest \<and>
       files fs (path_join d (m @ ''.yaml'')) = Some src \<and>
       fs' = fs\<lparr>files := (files fs)(path_join d ''gpt-3.5-turbo.yaml'' \<mapsto>
               py_replace (''name: '' @ m) ''name: gpt-3.5-turbo'' src)\<rparr>)"
  using assms
  by (auto simp: gpt35_alias_def write_file_def Let_def split: list.splits option.splits if_splits)

lemma gpt4_alias_files:
  assumes "gpt4_alias d names fs = (r, fs')"
  shows "fs' = fs \<or>
    (\<exists>m rest src. large_models names = m # rest \<and>
       files fs (path_join d (m @ ''.yaml'')) = Some src \<and>
       fs' = fs\<lparr>files := (files fs)(path_join d ''gpt-4.yaml'' \<mapsto>
               py_replace ''context_size: 2048'' ''context_size: 4096''
                 (py_replace (''name: '' @ m) ''name: gpt-4'' src))\<rparr>)"
  using assms
  by (auto simp: gpt4_alias_def write_file_def Let_def split: list.splits option.splits if_splits)





lemma gpt35_alias_named:
  assumes run: "gpt35_alias d names fs = (r, fs')"
    and src: "\<forall>m\<in>set names. \<forall>src. files fs (path_join d (m @ ''.yaml'')) = Some src \<longrightarrow>
                prefix (''name: '' @ m @ ''\<newline>'') src"
  shows "fs' = fs \<or>
    (\<exists>c. fs' = fs\<lparr>files := (files fs)(path_join d ''gpt-3.5-turbo.yaml'' \<mapsto> c)\<rparr> \<and>
         prefix ''name: gpt-3.5-turbo\<newline>'' c)"
proof -
  from gpt35_alias_files [OF run] show ?thesis
  proof
    assume "fs' = fs" then show ?thesis by simp
  next
    assume "\<exists>m rest src. small_models names = m # rest \<and>
       files fs (path_join d (m @ ''.yaml'')) = Some src \<and>
       fs' = fs\<lparr>files := (files fs)(path_join d ''gpt-3.5-turbo.yaml'' \<mapsto>
               py_replace (''name: '' @ m) ''name: gpt-3.5-turbo'' src)\<rparr>"
    then obtain m rest s where m: "small_models names = m # rest"
      and s: "files fs (path_join d (m @ ''.yaml'')) = Some s"
      and fs': "fs' = fs\<lparr>files := (files fs)(path_join d ''gpt-3.5-turbo.yaml'' \<mapsto>
               py_replace (''name: '' @ m) ''name: gpt-3.5-turbo'' s)\<rparr>"
      by blast
    from m have "m \<in> set names" by (rule small_models_member)
    with src s have "prefix (''name: '' @ m @ ''\<newline>'') s" by blast
    then have "prefix (''name: '' @ ''gpt-3.5-turbo'' @ ''\<newline>'')
                 (py_replace (''name: '' @ m) (''name: '' @ ''gpt-3.5-turbo'') s)"
      by (rule rename_config)
    then have "prefix ''name: gpt-3.5-turbo\<newline>''
                 (py_replace (''name: '' @ m) ''name: gpt-3.5-turbo'' s)"
      by simp
    with fs' show ?thesis by blast
  qed
qed

lemma gpt4_alias_named:
  assumes run: "gpt4_alias d names fs = (r, fs')"
    and src: "\<forall>m\<in>set names. \<forall>src. files fs (path_join d (m @ ''.yaml'')) = Some src \<longrightarrow>
                prefix (''name: '' @ m @ ''\<newline>'') src"
  shows "fs' = fs \<or>
    (\<exists>c. fs' = fs\<lparr>files := (files fs)(path_join d ''gpt-4.yaml'' \<mapsto> c)\<rparr> \<and>
         prefix ''name: gpt-4\<newline>'' c)"
proof -
  from gpt4_alias_files [OF run] show ?thesis
  proof
    assume "fs' = fs" then show ?thesis by simp
  next
    assume "\<exists>m rest src. large_models names = m # rest \<and>
       files fs (path_join d (m @ ''.yaml'')) = Some src \<and>
       fs' = fs\<lparr>files := (files fs)(path_join d ''gpt-4.yaml'' \<mapsto>
               py_replace ''context_size: 2048'' ''context_size: 4096''
                 (py_replace (''name: '' @ m) ''name: gpt-4'' src))\<rparr>"
    then obtain m rest s where m: "large_models names = m # rest"
      and s: "files fs (path_join d (m @ ''.yaml'')) = Some s"
      and fs': "fs' = fs\<lparr>files := (files fs)(path_join d ''gpt-4.yaml'' \<mapsto>
               py_replace ''context_size: 2048'' ''context_size: 4096''
                 (py_replace (''name: '' @ m) ''name: gpt-4'' s))\<rparr>"
      by blast
    from m have "m \<in> set names" by (rule large_models_member)
    with src s have "prefix (''name: '' @ m @ ''\<newline>'') s" by blast
    then have "prefix (''name: '' @ ''gpt-4'' @ ''\<newline>'')
                 (py_replace (''name: '' @ m) (''name: '' @ ''gpt-4'') s)"
      by (rule rename_config)
    then have "prefix ''name: gpt-4\<newline>'' (py_replace (''name: '' @ m) ''name: gpt-4'' s)"
      by simp
    then have "prefix ''name: gpt-4\<newline>''
                 (py_replace ''context_size: 2048'' ''context_size: 4096''
                    (py_replace (''name: '' @ m) ''name: gpt-4'' s))"
      by (rule context_size_keeps_name)
    with fs' show ?thesis by blast
  qed
qed

lemma create_openai_aliases_named:
  assumes clean: "\<forall>m\<in>set names. \<forall>c\<in>set m. isalnum c \<or> c = CHR ''-'' \<or> c = CHR ''_''"
    and src: "\<forall>m\<in>set names. \<forall>src. files fs (path_join d (m @ ''.yaml'')) = Some src \<longrightarrow>
                prefix (''name: '' @ m @ ''\<newline>'') src"
    and run: "create_openai_aliases d names fs = (r, fs')"
    and changed: "files fs' p \<noteq> files fs p"
  shows "(p = path_join d ''gpt-3.5-turbo.yaml'' \<and>
            (\<exists>c. files fs' p = Some c \<and> prefix ''name: gpt-3.5-turbo\<newline>'' c)) \<or>
         (p = path_join d ''gpt-4.yaml'' \<and>
            (\<exists>c. files fs' p = Some c \<and> prefix ''name: gpt-4\<newline>'' c))"
proof (cases "names = []")
  case True
  with run changed show ?thesis by (simp add: create_openai_aliases_def)
next
  case False
  obtain r1 fs1 where g35: "gpt35_alias d names fs = (r1, fs1)"
    by (cases "gpt35_alias d names fs")
  note first = gpt35_alias_named [OF g35 src]
  have src1: "\<forall>m\<in>set names. \<forall>src. files fs1 (path_join d (m @ ''.yaml'')) = Some src \<longrightarrow>
                prefix (''name: '' @ m @ ''\<newline>'') src"
  proof (intro ballI allI impI)
    fix m s
    assume m: "m \<in> set names" and s: "files fs1 (path_join d (m @ ''.yaml'')) = Some s"
    from clean m have "path_join d (m @ ''.yaml'') \<noteq> path_join d ''gpt-3.5-turbo.yaml''"
      by (intro clean_source_not_alias35) blast
    with first s have "files fs (path_join d (m @ ''.yaml'')) = Some s"
      by auto
    with src m show "prefix (''name: '' @ m @ ''\<newline>'') s" by blast
  qed
  show ?thesis
  proof (cases r1)
    case (Inl e)
    with run g35 False have "fs' = fs1" by (simp add: create_openai_aliases_def)
    with first changed show ?thesis by (auto split: if_splits)
  next
    case (Inr u)
    with run g35 False have g4: "gpt4_alias d names fs1 = (r, fs')"
      by (simp add: create_openai_aliases_def)
    note second = gpt4_alias_named [OF g4 src1]
    from first second changed alias_paths_differ [of d] show ?thesis
      by (auto split: if_splits)
  qed
qed

lemma create_model_config_named:
  assumes "\<not> write_refused fs (path_join d (n @ ''.yaml''))"
  shows "\<exists>content fs'.
       create_model_config cores n f d fs = (Inr (path_join d (n @ ''.yaml'')), fs') \<and>
       files fs' (path_join d (n @ ''.yaml'')) = Some content \<and>
       prefix (''name: '' @ n @ ''\<newline>'') content \<and>
       (\<forall>p. p \<noteq> path_join d (n @ ''.yaml'') \<longrightarrow> files fs' p = files fs p)"
proof -
  have "prefix (''name: '' @ n @ ''\<newline>'') (config_content n f (max 2 (min (cores div 2) 8)))"
    unfolding config_content_def by (simp add: prefix_def)
  with create_model_config_ok [OF assms, of cores f] show ?thesis
    by simp
qed






section \<open>Names and file stems\<close>

text \<open>
  Claim C7. Where the write is accepted, \<open>create_model_config\<close> leaves at
  \<^verbatim>\<open><config_dir>/<n>.yaml\<close> a text whose first line is \<^verbatim>\<open>name: <n>\<close>, and changes no
  other file. The Alias Emitter, run on names as the Name Normalizer makes them
  (alphanumerics, \<^verbatim>\<open>-\<close> and \<^verbatim>\<open>_\<close>) whose configurations start with their own name line,
  changes no file but \<^verbatim>\<open>gpt-3.5-turbo.yaml\<close> and \<^verbatim>\<open>gpt-4.yaml\<close>, and each of the two that
  it writes starts with the line \<^verbatim>\<open>name: gpt-3.5-turbo\<close>, respectively \<^verbatim>\<open>name: gpt-4\<close>.
\<close>

theorem config_name_matches_stem:
  "(\<not> write_refused fs (path_join d (n @ ''.yaml'')) \<longrightarrow>
      (\<exists>content fs'.
         create_model_config cores n f d fs = (Inr (path_join d (n @ ''.yaml'')), fs') \<and>
         files fs' (path_join d (n @ ''.yaml'')) = Some content \<and>
         prefix (''name: '' @ n @ ''\<newline>'') content \<and>
         (\<forall>p. p \<noteq> path_join d (n @ ''.yaml'') \<longrightarrow> files fs' p = files fs p))) \<and>
   ((\<forall>m\<in>set names. \<forall>c\<in>set m. isalnum c \<or> c = CHR ''-'' \<or> c = CHR ''_'') \<and>
    (\<forall>m\<in>set names. \<forall>src. files fs (path_join d (m @ ''.yaml'')) = Some src \<longrightarrow>
        prefix (''name: '' @ m @ ''\<newline>'') src) \<longrightarrow>
    (\<forall>p. files (snd (create_openai_aliases d names fs)) p \<noteq> files fs p \<longrightarrow>
       (p = path_join d ''gpt-3.5-turbo.yaml'' \<and>
          (\<exists>c. files (snd (create_openai_aliases d names fs)) p = Some c \<and>
               prefix ''name: gpt-3.5-turbo\<newline>'' c)) \<or>
       (p = path_join d ''gpt-4.yaml'' \<and>
          (\<exists>c. files (snd (create_openai_aliases d names fs)) p = Some c \<and>
               prefix ''name: gpt-4\<newline>'' c))))"
proof (intro conjI impI allI)
  assume "\<not> write_refused fs (path_join d (n @ ''.yaml''))"
  then show "\<exists>content fs'.
         create_model_config cores n f d fs = (Inr (path_join d (n @ ''.yaml'')), fs') \<and>
         files fs' (path_join d (n @ ''.yaml'')) = Some content \<and>
         prefix (''name: '' @ n @ ''\<newline>'') content \<and>
         (\<forall>p. p \<noteq> path_join d (n @ ''.yaml'') \<longrightarrow> files fs' p = files fs p)"
    by (rule create_model_config_named)
next
  fix p
  assume hyps: "(\<forall>m\<in>set names. \<forall>c\<in>set m. isalnum c \<or> c = CHR ''-'' \<or> c = CHR ''_'') \<and>
    (\<forall>m\<in>set names. \<forall>src. files fs (path_join d (m @ ''.yaml'')) = Some src \<longrightarrow>
        prefix (''name: '' @ m @ ''\<newline>'') src)"
    and changed: "files (snd (create_openai_aliases d names fs)) p \<noteq> files fs p"
  obtain r fs' where run: "create_openai_aliases d names fs = (r, fs')"
    by (cases "create_openai_aliases d names fs")
  from changed have ch: "files fs' p \<noteq> files fs p" by (simp add: run)
  from create_openai_aliases_named [OF conjunct1 [OF hyps] conjunct2 [OF hyps] run ch]
  show "(p = path_join d ''gpt-3.5-turbo.yaml'' \<and>
          (\<exists>c. files (snd (create_openai_aliases d names fs)) p = Some c \<and>
               prefix ''name: gpt-3.5-turbo\<newline>'' c)) \<or>
       (p = path_join d ''gpt-4.yaml'' \<and>
          (\<exists>c. files (snd (create_openai_aliases d names fs)) p = Some c \<and>
               prefix ''name: gpt-4\<newline>'' c))"
    by (simp add: run)
qed


text \<open>
  C7 on one run: the configuration of \<^verbatim>\<open>mistral-7b\<close> is written, then the aliases; the
  file \<^verbatim>\<open>gpt-4.yaml\<close> is created and starts with \<^verbatim>\<open>name: gpt-4\<close>.
\<close>

theorem config_name_matches_stem_witness:
  "(\<exists>c. files (snd (create_model_config 4 ''mistral-7b'' ''m.Q4_K_M.gguf'' ''/cfg''
              \<lparr>files = Map.empty, write_refused = (\<lambda>_. False)\<rparr>)) ''/cfg/mistral-7b.yaml'' = Some c \<and>
        prefix ''name: mistral-7b\<newline>'' c) \<and>
   (\<exists>c. files (snd (create_openai_aliases ''/cfg'' [''mistral-7b'']
           (snd (create_model_config 4 ''mistral-7b'' ''m.Q4_K_M.gguf'' ''/cfg''
              \<lparr>files = Map.empty, write_refused = (\<lambda>_. False)\<rparr>)))) ''/cfg/gpt-4.yaml'' = Some c \<and>
        prefix ''name: gpt-4\<newline>'' c)"
proof -
  let ?fs0 = "\<lparr>files = Map.empty, write_refused = (\<lambda>_. False)\<rparr>"
  let ?fs1 = "snd (create_model_config 4 ''mistral-7b'' ''m.Q4_K_M.gguf'' ''/cfg'' ?fs0)"
  let ?fs2 = "snd (create_openai_aliases ''/cfg'' [''mistral-7b''] ?fs1)"
  have path: "path_join ''/cfg'' (''mistral-7b'' @ ''.yaml'') = ''/cfg/mistral-7b.yaml''"
    by code_simp
  have path': "path_join ''/cfg'' ''mistral-7b.yaml'' = ''/cfg/mistral-7b.yaml''"
    by code_simp
  have p4: "path_join ''/cfg'' ''gpt-4.yaml'' = ''/cfg/gpt-4.yaml''"
    and p35: "path_join ''/cfg'' ''gpt-3.5-turbo.yaml'' = ''/cfg/gpt-3.5-turbo.yaml''"
    by code_simp+
  have ok: "\<not> write_refused ?fs0 (path_join ''/cfg'' (''mistral-7b'' @ ''.yaml''))"
    by simp
  from config_name_matches_stem [of ?fs0 "''/cfg''" "''mistral-7b''" 4 "''m.Q4_K_M.gguf''",
      THEN conjunct1, THEN mp, OF ok]
  have made: "\<exists>c. files ?fs1 ''/cfg/mistral-7b.yaml'' = Some c \<and> prefix ''name: mistral-7b\<newline>'' c"
    unfolding path by auto
  have clean: "\<forall>m\<in>set [''mistral-7b'']. \<forall>c\<in>set m. isalnum c \<or> c = CHR ''-'' \<or> c = CHR ''_''"
    by code_simp
  have src: "\<forall>m\<in>set [''mistral-7b'']. \<forall>src.
      files ?fs1 (path_join ''/cfg'' (m @ ''.yaml'')) = Some src \<longrightarrow>
      prefix (''name: '' @ m @ ''\<newline>'') src"
    using made by (auto simp: path')
  have changed: "files ?fs2 ''/cfg/gpt-4.yaml'' \<noteq> files ?fs1 ''/cfg/gpt-4.yaml''"
    by code_simp
  have other: "''/cfg/gpt-4.yaml'' \<noteq> path_join ''/cfg'' ''gpt-3.5-turbo.yaml''"
    unfolding p35 by simp
  from config_name_matches_stem [of ?fs1 "''/cfg''" _ _ _ "[''mistral-7b'']",
      THEN conjunct2, THEN mp, OF conjI [OF clean src], THEN spec, THEN mp, OF changed] other
  have "\<exists>c. files ?fs2 ''/cfg/gpt-4.yaml'' = Some c \<and> prefix ''name: gpt-4\<newline>'' c"
    by blast
  with made show ?thesis by (rule conjI)
qed

section \<open>Alias slots without a candidate\<close>












section \<open>The download loop: skipped models and collected names\<close>

lemma find_best_listing_error:
  "hub_files mid = Inl e \<Longrightarrow> find_best_gguf_file hub_files mid = None"
  by (simp add: find_best_gguf_file_def)

lemma hd_sort_member: "xs \<noteq> [] \<Longrightarrow> hd (sort xs) \<in> set xs"
  by (simp add: hd_sort_Min)

lemma try_patterns_member: "try_patterns ps gg = Some f \<Longrightarrow> f \<in> set gg"
proof (induction ps)
  case Nil
  then show ?case by simp
next
  case (Cons p ps)
  show ?case
  proof (cases "filter (\<lambda>f. py_in p f) gg = []")
    case True
    with Cons show ?thesis by simp
  next
    case False
    with Cons.prems have "f = hd (sort (filter (\<lambda>f. py_in p f) gg))" by (simp add: Let_def)
    with hd_sort_member [OF False] show ?thesis by simp
  qed
qed

lemma find_best_is_gguf:
  assumes "find_best_gguf_file hub_files mid = Some f"
  shows "suffix ''.gguf'' f"
proof (cases "hub_files mid")
  case (Inl e)
  with assms show ?thesis by (simp add: find_best_gguf_file_def)
next
  case (Inr listing)
  let ?q4 = "filter (\<lambda>f. endswith f ''.gguf'' \<and> py_in ''Q4_K_M'' f) listing"
  let ?gg = "filter (\<lambda>f. endswith f ''.gguf'') listing"
  show ?thesis
  proof (cases "?q4 = []")
    case False
    with assms Inr have "f = hd (sort ?q4)" by (simp add: find_best_gguf_file_def)
    with hd_sort_member [OF False] have "f \<in> set ?q4" by simp
    then show ?thesis by (simp add: endswith_suffix)
  next
    case True
    show ?thesis
    proof (cases "?gg = []")
      case empty: True
      with assms Inr True show ?thesis by (simp add: find_best_gguf_file_def)
    next
      case False
      have "f \<in> set ?gg"
      proof (cases "try_patterns [''Q4_0'', ''Q4_K'', ''Q3_K'', ''Q5_K'', ''Q2_K'', ''Q8_0''] ?gg")
        case None
        with assms Inr True False have "f = hd (sort ?gg)"
          by (simp add: find_best_gguf_file_def)
        with hd_sort_member [OF False] show ?thesis by simp
      next
        case (Some g)
        with assms Inr True False have "f = g"
          by (simp add: find_best_gguf_file_def)
        with try_patterns_member [OF Some] show ?thesis by simp
      qed
      then show ?thesis by (simp add: endswith_suffix)
    qed
  qed
qed

lemma find_best_nonempty: "find_best_gguf_file hub_files mid = Some f \<Longrightarrow> f \<noteq> []"
  by (auto dest: find_best_is_gguf)

lemma download_loop_skip_no_file:
  "find_best_gguf_file (list_repo_files env) (model_id model) = None \<Longrightarrow>
   download_loop env (model # rest) names fs = download_loop env rest names fs"
  by simp

lemma download_model_nonzero:
  "\<not> exists_path fs (path_join dir (basename file_name)) \<Longrightarrow>
   run [''huggingface-cli'', ''download'', mid, file_name,
        ''--local-dir'', dir, ''--local-dir-use-symlinks'', ''False''] fs = (Exit_Nonzero, fs') \<Longrightarrow>
   download_model run mid file_name dir fs = (Inr None, fs')"
  by (simp add: download_model_def Let_def)

lemma download_loop_skip_failed_download:
  "find_best_gguf_file (list_repo_files env) (model_id model) = Some file_name \<Longrightarrow>
   download_model (run_subprocess env) (model_id model) file_name (output_dir env) fs =
     (Inr None, fs') \<Longrightarrow>
   download_loop env (model # rest) names fs = download_loop env rest names fs'"
  by (simp add: Let_def find_best_nonempty)

lemma download_loop_all_skipped:
  "\<forall>m\<in>set models. find_best_gguf_file (list_repo_files env) (model_id m) = None \<Longrightarrow>
   download_loop env models names fs = (Inr names, fs)"
  by (induction models) simp_all

lemma download_loop_names:
  "download_loop env models names fs = (Inr out, fs') \<Longrightarrow>
   set out \<subseteq> set names \<union> (\<lambda>m. simplified_model_name (model_id m)) ` set models"
proof (induction models arbitrary: names fs)
  case Nil
  then show ?case by simp
next
  case (Cons model rest)
  show ?case
  proof (cases "find_best_gguf_file (list_repo_files env) (model_id model)")
    case None
    with Cons.prems have "download_loop env rest names fs = (Inr out, fs')" by simp
    from Cons.IH [OF this] show ?thesis by auto
  next
    case (Some file_name)
    show ?thesis
    proof (cases "file_name = []")
      case True
      with Some Cons.prems have "download_loop env rest names fs = (Inr out, fs')" by simp
      from Cons.IH [OF this] show ?thesis by auto
    next
      case False
      obtain dr fs1 where dl: "download_model (run_subprocess env) (model_id model) file_name
                                 (output_dir env) fs = (dr, fs1)"
        by (cases "download_model (run_subprocess env) (model_id model) file_name (output_dir env) fs")
      show ?thesis
      proof (cases dr)
        case (Inl e)
        with Some False dl Cons.prems show ?thesis by (simp add: Let_def)
      next
        case (Inr downloaded)
        show ?thesis
        proof (cases "downloaded = None \<or> downloaded = Some []")
          case True
          with Some False dl Inr Cons.prems
          have "download_loop env rest names fs1 = (Inr out, fs')"
            by (auto simp: Let_def)
          from Cons.IH [OF this] show ?thesis by auto
        next
          case nonempty: False
          then obtain p where p: "downloaded = Some p" "p \<noteq> []" by (cases downloaded) auto
          obtain cr fs2 where cfg: "create_model_config (cpu_count env)
              (simplified_model_name (model_id model)) (basename file_name) (config_dir env) fs1 =
              (cr, fs2)"
            by (cases "create_model_config (cpu_count env)
              (simplified_model_name (model_id model)) (basename file_name) (config_dir env) fs1")
          show ?thesis
          proof (cases cr)
            case (Inl e)
            with Some False dl Inr p cfg Cons.prems show ?thesis by (simp add: Let_def)
          next
            case (Inr path)
            with Some False dl \<open>dr = Inr downloaded\<close> p cfg Cons.prems
            have "download_loop env rest (names @ [simplified_model_name (model_id model)]) fs2 =
                    (Inr out, fs')"
              by (simp add: Let_def)
            from Cons.IH [OF this] show ?thesis by auto
          qed
        qed
      qed
    qed
  qed
qed

lemma lower_no_dot:
  assumes "CHR ''.'' \<notin> set s"
  shows "CHR ''.'' \<notin> set (lower s)"
proof
  assume "CHR ''.'' \<in> set (lower s)"
  then obtain x where "x \<in> set s" and "lower_char x = CHR ''.''"
    by (auto simp: lower_def)
  with assms show False by (simp add: lower_char_dot)
qed

lemma simplified_model_name_no_dot: "CHR ''.'' \<notin> set (simplified_model_name mid)"
  using simplified_model_name_chars [of "CHR ''.''" mid] not_isalnum_punct by auto

lemma no_dot_no_marker:
  assumes "CHR ''.'' \<notin> set s"
  shows "\<not> sublist ''llama-3.1-8'' (lower s)"
proof
  assume "sublist ''llama-3.1-8'' (lower s)"
  then have "set ''llama-3.1-8'' \<subseteq> set (lower s)" by (rule set_mono_sublist)
  then have "CHR ''.'' \<in> set (lower s)" by simp
  with lower_no_dot [OF assms] show False by simp
qed

lemma large_models_without_dotted_marker:
  assumes "\<forall>m\<in>set names. \<not> sublist ''llama-3.1-8'' (lower m)"
  shows "large_models names =
         filter (\<lambda>m. sublist ''llama-3-8'' (lower m) \<or> sublist ''mistral-7'' (lower m)) names"
  unfolding large_models_def
  by (rule filter_cong [OF refl]) (use assms in \<open>simp add: any_in_sublist\<close>)

text \<open>
  Claim C8. A listing that raises makes the resolver return \<open>None\<close>. A model for which
  the resolver returns \<open>None\<close> is skipped: the loop goes on with the next model, with
  the same names and the same file system. A model whose download tool exits with a
  non-zero status makes \<open>download_model\<close> return \<open>None\<close> and is skipped as well: the
  loop goes on with the same names and with the file system as the tool left it, so the
  script has written no configuration for it. When the resolver finds no file for any
  model, the loop ends normally with the names it started with.
\<close>

theorem per_model_failure_skips:
  "(list_repo_files env (model_id model) = Inl e \<longrightarrow>
      find_best_gguf_file (list_repo_files env) (model_id model) = None) \<and>
   (find_best_gguf_file (list_repo_files env) (model_id model) = None \<longrightarrow>
      download_loop env (model # rest) names fs = download_loop env rest names fs) \<and>
   (find_best_gguf_file (list_repo_files env) (model_id model) = Some file_name \<and>
    \<not> exists_path fs (path_join (output_dir env) (basename file_name)) \<and>
    run_subprocess env
      [''huggingface-cli'', ''download'', model_id model, file_name,
       ''--local-dir'', output_dir env, ''--local-dir-use-symlinks'', ''False''] fs =
      (Exit_Nonzero, fs') \<longrightarrow>
      download_model (run_subprocess env) (model_id model) file_name (output_dir env) fs =
        (Inr None, fs') \<and>
      download_loop env (model # rest) names fs = download_loop env rest names fs') \<and>
   ((\<forall>m\<in>set models. find_best_gguf_file (list_repo_files env) (model_id m) = None) \<longrightarrow>
      download_loop env models names fs = (Inr names, fs))"
proof (intro conjI impI)
  assume "list_repo_files env (model_id model) = Inl e"
  then show "find_best_gguf_file (list_repo_files env) (model_id model) = None"
    by (rule find_best_listing_error)
next
  assume "find_best_gguf_file (list_repo_files env) (model_id model) = None"
  then show "download_loop env (model # rest) names fs = download_loop env rest names fs"
    by (rule download_loop_skip_no_file)
next
  assume h: "find_best_gguf_file (list_repo_files env) (model_id model) = Some file_name \<and>
    \<not> exists_path fs (path_join (output_dir env) (basename file_name)) \<and>
    run_subprocess env
      [''huggingface-cli'', ''download'', model_id model, file_name,
       ''--local-dir'', output_dir env, ''--local-dir-use-symlinks'', ''False''] fs =
      (Exit_Nonzero, fs')"
  then show dl: "download_model (run_subprocess env) (model_id model) file_name (output_dir env) fs =
        (Inr None, fs')"
    by (intro download_model_nonzero) (elim conjE, assumption)+
  from h have "find_best_gguf_file (list_repo_files env) (model_id model) = Some file_name"
    by (rule conjunct1)
  then show "download_loop env (model # rest) names fs = download_loop env rest names fs'"
    using dl by (rule download_loop_skip_failed_download)
next
  assume "\<forall>m\<in>set models. find_best_gguf_file (list_repo_files env) (model_id m) = None"
  then show "download_loop env models names fs = (Inr names, fs)"
    by (rule download_loop_all_skipped)
qed

text \<open>
  C8 on three models: the listing of the first raises, the download of the second fails,
  the third is downloaded. The run ends normally with the third name only.
\<close>

theorem per_model_failure_skips_witness:
  "fst (download_loop
     \<lparr>list_repo_files = (\<lambda>mid. if mid = ''acme/broken-GGUF'' then Inl HubError
                                else Inr [''README.md'', ''model.Q4_K_M.gguf'']),
      run_subprocess = (\<lambda>cmd fs. if cmd ! 2 = ''acme/offline-GGUF'' then (Exit_Nonzero, fs)
                                  else (Exit_Zero, fs)),
      cpu_count = 4, output_dir = ''/models'', config_dir = ''/cfg''\<rparr>
     [\<lparr>model_id = ''acme/broken-GGUF'', downloads = 30\<rparr>,
      \<lparr>model_id = ''acme/offline-GGUF'', downloads = 20\<rparr>,
      \<lparr>model_id = ''microsoft/phi-2-GGUF'', downloads = 10\<rparr>]
     [] \<lparr>files = Map.empty, write_refused = (\<lambda>_. False)\<rparr>) = Inr [''phi-2'']"
proof -
  let ?env = "\<lparr>list_repo_files = (\<lambda>mid. if mid = ''acme/broken-GGUF'' then Inl HubError
                                else Inr [''README.md'', ''model.Q4_K_M.gguf'']),
      run_subprocess = (\<lambda>cmd fs. if cmd ! 2 = ''acme/offline-GGUF'' then (Exit_Nonzero, fs)
                                  else (Exit_Zero, fs)),
      cpu_count = 4, output_dir = ''/models'', config_dir = ''/cfg''\<rparr>"
  let ?m1 = "\<lparr>model_id = ''acme/broken-GGUF'', downloads = 30\<rparr>"
  let ?m2 = "\<lparr>model_id = ''acme/offline-GGUF'', downloads = 20\<rparr>"
  let ?m3 = "\<lparr>model_id = ''microsoft/phi-2-GGUF'', downloads = 10\<rparr>"
  let ?fs = "\<lparr>files = Map.empty, write_refused = (\<lambda>_. False)\<rparr>"
  note skip1 = per_model_failure_skips [of ?env ?m1 HubError "[?m2, ?m3]" "[]" ?fs]
  have err: "list_repo_files ?env (model_id ?m1) = Inl HubError"
    by simp
  have none: "find_best_gguf_file (list_repo_files ?env) (model_id ?m1) = None"
    by (rule skip1 [THEN conjunct1, THEN mp, OF err])
  have step1: "download_loop ?env [?m1, ?m2, ?m3] [] ?fs = download_loop ?env [?m2, ?m3] [] ?fs"
    by (rule skip1 [THEN conjunct2, THEN conjunct1, THEN mp, OF none])
  have failed: "find_best_gguf_file (list_repo_files ?env) (model_id ?m2) = Some ''model.Q4_K_M.gguf'' \<and>
    \<not> exists_path ?fs (path_join (output_dir ?env) (basename ''model.Q4_K_M.gguf'')) \<and>
    run_subprocess ?env
      [''huggingface-cli'', ''download'', model_id ?m2, ''model.Q4_K_M.gguf'',
       ''--local-dir'', output_dir ?env, ''--local-dir-use-symlinks'', ''False''] ?fs =
      (Exit_Nonzero, ?fs)"
  proof (intro conjI)
    show "find_best_gguf_file (list_repo_files ?env) (model_id ?m2) = Some ''model.Q4_K_M.gguf''"
      by code_simp
    show "\<not> exists_path ?fs (path_join (output_dir ?env) (basename ''model.Q4_K_M.gguf''))"
      by (simp add: exists_path_def)
    show "run_subprocess ?env
      [''huggingface-cli'', ''download'', model_id ?m2, ''model.Q4_K_M.gguf'',
       ''--local-dir'', output_dir ?env, ''--local-dir-use-symlinks'', ''False''] ?fs =
      (Exit_Nonzero, ?fs)"
      by simp
  qed
  note skip2 = per_model_failure_skips [where env = ?env and model = ?m2 and rest = "[?m3]"
      and names = "[]" and fs = ?fs and file_name = "''model.Q4_K_M.gguf''" and fs' = ?fs,
      THEN conjunct2, THEN conjunct2, THEN conjunct1, THEN mp, OF failed]
  have step2: "download_loop ?env [?m2, ?m3] [] ?fs = download_loop ?env [?m3] [] ?fs"
    by (rule skip2 [THEN conjunct2])
  have last: "fst (download_loop ?env [?m3] [] ?fs) = Inr [''phi-2'']"
    by code_simp
  show ?thesis
    by (simp only: step1 step2 last)
qed

text \<open>
  Claim C10. No name made by the Name Normalizer contains a dot, so none contains (in
  lower case) the marker \<^verbatim>\<open>llama-3.1-8\<close>. Every name that the download loop collects,
  starting from the empty list, is made by the normalizer; so on the names of a run the
  \<^verbatim>\<open>gpt-4\<close> candidates are the names that contain \<^verbatim>\<open>llama-3-8\<close> or \<^verbatim>\<open>mistral-7\<close>, and
  the third marker selects nothing.
\<close>

theorem normalized_name_has_no_dot:
  "CHR ''.'' \<notin> set (simplified_model_name mid) \<and>
   \<not> sublist ''llama-3.1-8'' (lower (simplified_model_name mid)) \<and>
   (\<forall>out fs'. download_loop env models [] fs = (Inr out, fs') \<longrightarrow>
      (\<forall>m\<in>set out. CHR ''.'' \<notin> set m \<and> \<not> sublist ''llama-3.1-8'' (lower m)) \<and>
      large_models out =
        filter (\<lambda>m. sublist ''llama-3-8'' (lower m) \<or> sublist ''mistral-7'' (lower m)) out)"
proof (intro conjI allI impI)
  show nodot: "CHR ''.'' \<notin> set (simplified_model_name mid)"
    by (rule simplified_model_name_no_dot)
  then show "\<not> sublist ''llama-3.1-8'' (lower (simplified_model_name mid))"
    by (rule no_dot_no_marker)
next
  fix out fs'
  assume run: "download_loop env models [] fs = (Inr out, fs')"
  show all: "\<forall>m\<in>set out. CHR ''.'' \<notin> set m \<and> \<not> sublist ''llama-3.1-8'' (lower m)"
  proof
    fix m assume "m \<in> set out"
    with download_loop_names [OF run]
    have "m \<in> (\<lambda>m. simplified_model_name (model_id m)) ` set models"
      by auto
    then obtain x :: model_info where "m = simplified_model_name (model_id x)"
      by blast
    then show "CHR ''.'' \<notin> set m \<and> \<not> sublist ''llama-3.1-8'' (lower m)"
      using simplified_model_name_no_dot no_dot_no_marker by simp
  qed
  then show "large_models out =
        filter (\<lambda>m. sublist ''llama-3-8'' (lower m) \<or> sublist ''mistral-7'' (lower m)) out"
    by (intro large_models_without_dotted_marker) blast
qed

text \<open>
  C10 on the id \<^verbatim>\<open>meta/Llama-3.1-8B-GGUF\<close>: the name is \<^verbatim>\<open>llama--3-1-8b\<close>.
\<close>

theorem normalized_name_has_no_dot_witness:
  "download_loop
     \<lparr>list_repo_files = (\<lambda>_. Inr [''model.Q4_K_M.gguf'']),
      run_subprocess = (\<lambda>cmd fs. (Exit_Zero, fs)),
      cpu_count = 4, output_dir = ''/models'', config_dir = ''/cfg''\<rparr>
     [\<lparr>model_id = ''meta/Llama-3.1-8B-GGUF'', downloads = 10\<rparr>]
     [] \<lparr>files = Map.empty, write_refused = (\<lambda>_. False)\<rparr> =
     (Inr [''llama--3-1-8b''],
      snd (download_loop
        \<lparr>list_repo_files = (\<lambda>_. Inr [''model.Q4_K_M.gguf'']),
         run_subprocess = (\<lambda>cmd fs. (Exit_Zero, fs)),
         cpu_count = 4, output_dir = ''/models'', config_dir = ''/cfg''\<rparr>
        [\<lparr>model_id = ''meta/Llama-3.1-8B-GGUF'', downloads = 10\<rparr>]
        [] \<lparr>files = Map.empty, write_refused = (\<lambda>_. False)\<rparr>)) \<and>
   large_models [''llama--3-1-8b''] =
     filter (\<lambda>m. sublist ''llama-3-8'' (lower m) \<or> sublist ''mistral-7'' (lower m))
       [''llama--3-1-8b'']"
proof -
  let ?env = "\<lparr>list_repo_files = (\<lambda>_. Inr [''model.Q4_K_M.gguf'']),
      run_subprocess = (\<lambda>cmd fs. (Exit_Zero, fs)),
      cpu_count = 4, output_dir = ''/models'', config_dir = ''/cfg''\<rparr>"
  let ?models = "[\<lparr>model_id = ''meta/Llama-3.1-8B-GGUF'', downloads = 10\<rparr>]"
  let ?fs = "\<lparr>files = Map.empty, write_refused = (\<lambda>_. False)\<rparr>"
  have "fst (download_loop ?env ?models [] ?fs) = Inr [''llama--3-1-8b'']"
    by code_simp
  then have run: "download_loop ?env ?models [] ?fs =
      (Inr [''llama--3-1-8b''], snd (download_loop ?env ?models [] ?fs))"
    by (simp add: prod_eq_iff)
  from normalized_name_has_no_dot [where env = ?env and models = ?models and fs = ?fs, THEN conjunct2, THEN conjunct2,
      THEN spec, THEN spec, THEN mp, OF run]
  have "large_models [''llama--3-1-8b''] =
     filter (\<lambda>m. sublist ''llama-3-8'' (lower m) \<or> sublist ''mistral-7'' (lower m))
       [''llama--3-1-8b'']"
    by (rule conjunct2)
  with run show ?thesis by (rule conjI)
qed

end
